theory Spec2Isabelle
  imports Main "HOL-Library.AList"
begin

section \<open>Characters and regular expressions\<close>

text \<open>
  Python strings are modelled as \<^typ>\<open>string\<close>: lists of characters with code points
  below 256. On this range the character classes of \<^verbatim>\<open>re\<close> for \<^verbatim>\<open>str\<close> patterns are:
  \<^verbatim>\<open>\d\<close> the ten ASCII digits, \<^verbatim>\<open>\s\<close> the code points 9..13, 28..32, 133 and 160,
  and \<^verbatim>\<open>.\<close> (without DOTALL) every character but the line feed.
\<close>

definition LF :: char where
  "LF = CHR 0x0A"

definition CR :: char where
  "CR = CHR 0x0D"

definition DQUOTE :: char where
  "DQUOTE = CHR 0x22"

definition is_digit :: "char \<Rightarrow> bool" where
  "is_digit c \<longleftrightarrow> 48 \<le> (of_char c :: nat) \<and> (of_char c :: nat) \<le> 57"

definition is_space :: "char \<Rightarrow> bool" where
  "is_space c \<longleftrightarrow>
     (of_char c :: nat) \<in> {9, 10, 11, 12, 13, 28, 29, 30, 31, 32, 133, 160}"

text \<open>
  The fragment of the pattern language that the two patterns of the source use.
  \<open>Never\<close> and \<open>Alt\<close> do not occur in the source patterns; the matcher needs them.
  A lazy quantifier (\<^verbatim>\<open>*?\<close>) changes which match a search prefers, not whether the whole
  string can be matched, so for \<^verbatim>\<open>re.fullmatch\<close> as a truth value it is \<open>Star\<close>.
\<close>

datatype regex =
    Never
  | Empty
  | Chr char
  | Digit
  | Space
  | Dot
  | Seq regex regex
  | Alt regex regex
  | Star regex
  | Plus regex
  | Opt regex

fun nullable :: "regex \<Rightarrow> bool" where
  "nullable Never = False"
| "nullable Empty = True"
| "nullable (Chr _) = False"
| "nullable Digit = False"
| "nullable Space = False"
| "nullable Dot = False"
| "nullable (Seq r s) = (nullable r \<and> nullable s)"
| "nullable (Alt r s) = (nullable r \<or> nullable s)"
| "nullable (Star r) = True"
| "nullable (Plus r) = nullable r"
| "nullable (Opt r) = True"

fun deriv :: "char \<Rightarrow> regex \<Rightarrow> regex" where
  "deriv c Never = Never"
| "deriv c Empty = Never"
| "deriv c (Chr d) = (if c = d then Empty else Never)"
| "deriv c Digit = (if is_digit c then Empty else Never)"
| "deriv c Space = (if is_space c then Empty else Never)"
| "deriv c Dot = (if c \<noteq> LF then Empty else Never)"
| "deriv c (Seq r s) =
     (if nullable r then Alt (Seq (deriv c r) s) (deriv c s) else Seq (deriv c r) s)"
| "deriv c (Alt r s) = Alt (deriv c r) (deriv c s)"
| "deriv c (Star r) = Seq (deriv c r) (Star r)"
| "deriv c (Plus r) = Seq (deriv c r) (Star r)"
| "deriv c (Opt r) = deriv c r"

text \<open>\<^verbatim>\<open>re.fullmatch(pattern, s)\<close> as a truth value: the whole of \<open>s\<close> is consumed.\<close>

definition fullmatch :: "regex \<Rightarrow> string \<Rightarrow> bool" where
  "fullmatch r s = nullable (foldl (\<lambda>r c. deriv c r) r s)"

fun literal :: "string \<Rightarrow> regex" where
  "literal [] = Empty"
| "literal (c # cs) = Seq (Chr c) (literal cs)"

fun seqs :: "regex list \<Rightarrow> regex" where
  "seqs [] = Empty"
| "seqs (r # rs) = Seq r (seqs rs)"

subsection \<open>The language of a pattern\<close>

inductive_set star :: "string set \<Rightarrow> string set" for A :: "string set" where
  star_nil: "[] \<in> star A"
| star_step: "u \<in> A \<Longrightarrow> v \<in> star A \<Longrightarrow> u @ v \<in> star A"

definition conc :: "string set \<Rightarrow> string set \<Rightarrow> string set" where
  "conc A B = {u @ v | u v. u \<in> A \<and> v \<in> B}"

fun lang :: "regex \<Rightarrow> string set" where
  "lang Never = {}"
| "lang Empty = {[]}"
| "lang (Chr c) = {[c]}"
| "lang Digit = {[c] | c. is_digit c}"
| "lang Space = {[c] | c. is_space c}"
| "lang Dot = {[c] | c. c \<noteq> LF}"
| "lang (Seq r s) = conc (lang r) (lang s)"
| "lang (Alt r s) = lang r \<union> lang s"
| "lang (Star r) = star (lang r)"
| "lang (Plus r) = conc (lang r) (star (lang r))"
| "lang (Opt r) = insert [] (lang r)"

section \<open>Errors\<close>

text \<open>
  An exception of the Python run time or of a library is named by its text.
  \<^verbatim>\<open>report_error_and_exit(message)\<close> prints the message and raises \<^verbatim>\<open>SystemExit(2)\<close>;
  each call site is one constructor below. \<open>Uncaught\<close> is an ordinary exception
  (a subclass of \<^verbatim>\<open>Exception\<close>) that is travelling up the call stack.
\<close>

type_synonym exn = string

datatype error =
    SpecificVersionRequired
      \<comment> \<open>\<^verbatim>\<open>specific version required\<close>\<close>
  | UnsupportedVersionFormat string
      \<comment> \<open>\<^verbatim>\<open>unsupported version format: {version}\<close>\<close>
  | BareRepository
      \<comment> \<open>\<^verbatim>\<open>a working tree, not a bare git repository, is required\<close>\<close>
  | NotRegularFile
      \<comment> \<open>\<^verbatim>\<open>pyproject.toml is in HEAD, but not a regular file\<close>\<close>
  | VersionMissing
      \<comment> \<open>\<^verbatim>\<open>version missing in pyproject.toml in HEAD\<close>\<close>
  | ExpectedTable
      \<comment> \<open>\<^verbatim>\<open>expected table, got {type(item)}\<close>\<close>
  | InitUpdateFailed
      \<comment> \<open>\<^verbatim>\<open>failed to update VERSION constant in __init__.py\<close>\<close>
  | PyprojectUpdateFailed exn
      \<comment> \<open>\<^verbatim>\<open>failed to update pyproject.toml: {exc}; project may be in an inconsistent version state\<close>\<close>
  | Uncaught exn

section \<open>The version model\<close>

datatype BumpMode = RELEASE | DEV | SPECIFIC

record HeadVersion =
  major :: int
  minor :: int
  patch :: int
  dev :: "int option"

definition ZERO_VERSION_SENTINEL :: HeadVersion where
  "ZERO_VERSION_SENTINEL = \<lparr>major = 0, minor = 0, patch = 0, dev = None\<rparr>"

text \<open>
  \<^verbatim>\<open>str\<close> of a Python integer: its decimal digits, most significant first, after a
  minus sign when it is negative. The interpreter's configurable cap on the length of
  decimal conversions is not modelled: integers are unbounded.
\<close>

definition digit_char :: "nat \<Rightarrow> char" where
  "digit_char d = char_of (48 + d)"

definition digit_value :: "char \<Rightarrow> nat" where
  "digit_value c = of_char c - 48"

function str_nat :: "nat \<Rightarrow> string" where
  "str_nat n = (if n < 10 then [digit_char n] else str_nat (n div 10) @ [digit_char (n mod 10)])"
  by pat_completeness auto
termination
  by (relation "measure (\<lambda>n. n)") auto

declare str_nat.simps [simp del]

definition str_int :: "int \<Rightarrow> string" where
  "str_int i = (if i < 0 then CHR ''-'' # str_nat (nat (- i)) else str_nat (nat i))"

text \<open>\<^verbatim>\<open>HeadVersion.__str__\<close>\<close>

definition str_HeadVersion :: "HeadVersion \<Rightarrow> string" where
  "str_HeadVersion self =
     (case dev self of
        None \<Rightarrow> str_int (major self) @ ''.'' @ str_int (minor self) @ ''.'' @ str_int (patch self)
      | Some d \<Rightarrow>
          str_int (major self) @ ''.'' @ str_int (minor self) @ ''.'' @ str_int (patch self)
            @ ''-dev'' @ str_int d)"

text \<open>
  \<^verbatim>\<open>int\<close> of a capture group. Every group of \<open>version_re\<close> is a non-empty run of
  decimal digits, on which \<^verbatim>\<open>int\<close> reads the decimal numeral.
\<close>

definition py_int :: "string \<Rightarrow> int" where
  "py_int ds = int (foldl (\<lambda>acc c. 10 * acc + digit_value c) 0 ds)"

text \<open>The pattern \<^verbatim>\<open>(\d+)\.(\d+)\.(\d+)(?:-dev(\d+))?\<close>\<close>

definition version_re :: regex where
  "version_re =
     seqs [Plus Digit, Chr CHR ''.'', Plus Digit, Chr CHR ''.'', Plus Digit,
           Opt (seqs [literal ''-dev'', Plus Digit])]"

text \<open>
  The groups of a successful \<^verbatim>\<open>re.fullmatch\<close> of \<open>version_re\<close>. A digit run is
  followed by a character that is no digit (or by the end), so group 1 is the longest
  digit prefix, group 2 the longest digit prefix after the dot behind it, and so on;
  group 4 is \<open>None\<close> when the optional suffix did not take part in the match.
  Lemma \<open>match_groups_sound\<close> below shows that the groups are the only decomposition.
\<close>

definition match_groups :: "string \<Rightarrow> (string \<times> string \<times> string \<times> string option) option" where
  "match_groups s =
     (if \<not> fullmatch version_re s then None
      else
        let g1 = takeWhile is_digit s;
            r1 = drop 1 (dropWhile is_digit s);
            g2 = takeWhile is_digit r1;
            r2 = drop 1 (dropWhile is_digit r1);
            g3 = takeWhile is_digit r2;
            r3 = dropWhile is_digit r2;
            g4 = (if r3 = [] then None else Some (drop 4 r3))
        in Some (g1, g2, g3, g4))"

definition parse_version :: "string \<Rightarrow> error + HeadVersion" where
  "parse_version version =
     (case match_groups version of
        None \<Rightarrow> Inl (UnsupportedVersionFormat version)
      | Some (g1, g2, g3, g4) \<Rightarrow>
          Inr \<lparr>major = py_int g1, minor = py_int g2, patch = py_int g3,
               dev = map_option py_int g4\<rparr>)"

section \<open>Structured documents\<close>

text \<open>
  The items of a \<^verbatim>\<open>tomlkit\<close> document that the source tells apart: a table
  (\<^verbatim>\<open>tomlkit.items.Table\<close>), a string (an instance of \<^verbatim>\<open>str\<close>), and items that are
  neither. A container maps keys to items and keeps their order.
\<close>

datatype item =
    Table "(string \<times> item) list"
  | InlineTable "(string \<times> item) list"
  | String string
  | Integer int
  | Boolean bool
  | Array "item list"

type_synonym container = "(string \<times> item) list"

fun is_Table :: "item option \<Rightarrow> bool" where
  "is_Table (Some (Table _)) = True"
| "is_Table _ = False"

section \<open>Reading the committed version\<close>

datatype git_object = Blob string | Tree | Commit | Tag

record repository =
  is_bare :: bool
  revparse_single :: "string \<Rightarrow> exn + git_object"

text \<open>
  \<^verbatim>\<open>data.get("project", {}).get("version")\<close>: a missing \<open>project\<close> gives the empty
  dictionary and so \<open>None\<close>; tables answer \<^verbatim>\<open>get\<close>; any other item has no such method
  and the call raises \<^verbatim>\<open>AttributeError\<close>.
\<close>

definition project_version :: "container \<Rightarrow> error + item option" where
  "project_version data =
     (case map_of data ''project'' of
        None \<Rightarrow> Inr None
      | Some (Table t) \<Rightarrow> Inr (map_of t ''version'')
      | Some (InlineTable t) \<Rightarrow> Inr (map_of t ''version'')
      | Some _ \<Rightarrow> Inl (Uncaught ''AttributeError''))"

text \<open>
  The parameter \<open>toml_parse\<close> stands for \<^verbatim>\<open>obj.data.decode("utf-8")\<close> followed by
  \<^verbatim>\<open>tomlkit.parse\<close>: the document of a blob's bytes, or the exception raised on the way,
  which no handler of the source catches.
\<close>

definition read_head_version :: "(string \<Rightarrow> exn + container) \<Rightarrow> repository \<Rightarrow> error + HeadVersion" where
  "read_head_version toml_parse repo =
     (if is_bare repo then Inl BareRepository
      else
        case revparse_single repo ''HEAD:pyproject.toml'' of
          Inl _ \<Rightarrow> Inr ZERO_VERSION_SENTINEL
        | Inr (Blob data) \<Rightarrow>
            (case toml_parse data of
               Inl x \<Rightarrow> Inl (Uncaught x)
             | Inr doc \<Rightarrow>
                 (case project_version doc of
                    Inl e \<Rightarrow> Inl e
                  | Inr (Some (String head_version)) \<Rightarrow> parse_version head_version
                  | Inr _ \<Rightarrow> Inl VersionMissing))
        | Inr _ \<Rightarrow> Inl NotRegularFile)"

section \<open>Computing the bumped version\<close>

definition calculate_bumped_version ::
  "(string \<Rightarrow> exn + container) \<Rightarrow> repository \<Rightarrow> BumpMode \<Rightarrow> string option
     \<Rightarrow> error + (HeadVersion \<times> string)" where
  "calculate_bumped_version toml_parse repository mode specific =
     (case mode of
        SPECIFIC \<Rightarrow>
          (case specific of
             None \<Rightarrow> Inl SpecificVersionRequired
           | Some v \<Rightarrow> Inr (ZERO_VERSION_SENTINEL, v))
      | RELEASE \<Rightarrow>
          (case read_head_version toml_parse repository of
             Inl e \<Rightarrow> Inl e
           | Inr head_version \<Rightarrow>
               (if dev head_version \<noteq> None then
                  Inr (head_version,
                       str_HeadVersion \<lparr>major = major head_version, minor = minor head_version,
                         patch = patch head_version, dev = None\<rparr>)
                else
                  Inr (head_version,
                       str_HeadVersion \<lparr>major = major head_version, minor = minor head_version,
                         patch = patch head_version + 1, dev = None\<rparr>)))
      | DEV \<Rightarrow>
          (case read_head_version toml_parse repository of
             Inl e \<Rightarrow> Inl e
           | Inr head_version \<Rightarrow>
               (case dev head_version of
                  None \<Rightarrow>
                    Inr (head_version,
                         str_HeadVersion \<lparr>major = major head_version, minor = minor head_version,
                           patch = patch head_version + 1, dev = Some 1\<rparr>)
                | Some d \<Rightarrow>
                    Inr (head_version,
                         str_HeadVersion \<lparr>major = major head_version, minor = minor head_version,
                           patch = patch head_version, dev = Some (d + 1)\<rparr>))))"

section \<open>The version grammar, as the specification words it\<close>

text \<open>
  The grammar \<^verbatim>\<open>\d+\.\d+\.\d+(-dev\d+)?\<close> read as a shape of texts: three non-empty runs
  of decimal digits separated by dots, optionally followed by \<^verbatim>\<open>-dev\<close> and a fourth run.
\<close>

definition digits1 :: "string \<Rightarrow> bool" where
  "digits1 ds \<longleftrightarrow> ds \<noteq> [] \<and> list_all is_digit ds"

definition version_text :: "string \<Rightarrow> string \<Rightarrow> string \<Rightarrow> string option \<Rightarrow> string" where
  "version_text a b c d =
     a @ ''.'' @ b @ ''.'' @ c @ (case d of None \<Rightarrow> [] | Some x \<Rightarrow> ''-dev'' @ x)"

definition version_grammar :: "string \<Rightarrow> bool" where
  "version_grammar v \<longleftrightarrow>
     (\<exists>a b c d. digits1 a \<and> digits1 b \<and> digits1 c \<and> pred_option digits1 d
        \<and> v = version_text a b c d)"


section \<open>Editing the structured document\<close>

text \<open>\<^verbatim>\<open>section.split(".")\<close>: the pieces between the separators; never the empty list.\<close>

fun split_on :: "char \<Rightarrow> string \<Rightarrow> string list" where
  "split_on sep [] = [[]]"
| "split_on sep (c # cs) =
     (if c = sep then [] # split_on sep cs
      else (c # hd (split_on sep cs)) # tl (split_on sep cs))"

text \<open>
  The loop of \<^verbatim>\<open>replace_key_in_section\<close> and the assignment after it. In the source
  \<open>current\<close> is a reference into the document and the assignments mutate the document
  in place; here each level returns its container, which the level above stores back
  under the same key. \<^verbatim>\<open>current[part] = tomlkit.table()\<close> replaces the entry of an
  existing key and appends a new key, which is \<open>AList.update\<close>; where in the document
  the library puts a table that replaces a value plays no part in what follows, since
  entries are only ever looked up by key.
\<close>

fun set_in_section :: "string list \<Rightarrow> string \<Rightarrow> string \<Rightarrow> container \<Rightarrow> error + container" where
  "set_in_section [] key val current = Inr (AList.update key (String val) current)"
| "set_in_section (part # parts) key val current =
     (let item = map_of current part;
          current1 = (if \<not> is_Table item then AList.update part (Table []) current else current);
          item1 = (if \<not> is_Table item then map_of current1 part else item)
      in case item1 of
           Some (Table t) \<Rightarrow>
             (case set_in_section parts key val t of
                Inl e \<Rightarrow> Inl e
              | Inr t' \<Rightarrow> Inr (AList.update part (Table t') current1))
         | _ \<Rightarrow> Inl ExpectedTable)"

definition replace_key_in_doc :: "string \<Rightarrow> string \<Rightarrow> string \<Rightarrow> container \<Rightarrow> error + container" where
  "replace_key_in_doc section key val doc = set_in_section (split_on CHR ''.'' section) key val doc"

text \<open>
  \<^verbatim>\<open>replace_key_in_section\<close>, with \<^verbatim>\<open>tomlkit.parse\<close> and \<^verbatim>\<open>tomlkit.dumps\<close> as
  parameters. A text that is no document makes \<^verbatim>\<open>tomlkit.parse\<close> raise.
\<close>

definition replace_key_in_section ::
  "(string \<Rightarrow> exn + container) \<Rightarrow> (container \<Rightarrow> string) \<Rightarrow> string \<Rightarrow> string \<Rightarrow> string \<Rightarrow> string
     \<Rightarrow> error + string" where
  "replace_key_in_section toml_parse toml_dumps content section key val =
     (case toml_parse content of
        Inl x \<Rightarrow> Inl (Uncaught x)
      | Inr doc \<Rightarrow>
          (case replace_key_in_doc section key val doc of
             Inl e \<Rightarrow> Inl e
           | Inr doc' \<Rightarrow> Inr (toml_dumps doc')))"

text \<open>The item that a path of keys leads to, descending through tables only.\<close>

fun get_path :: "string list \<Rightarrow> container \<Rightarrow> item option" where
  "get_path [] doc = None"
| "get_path [k] doc = map_of doc k"
| "get_path (k # ks) doc =
     (case map_of doc k of Some (Table t) \<Rightarrow> get_path ks t | _ \<Rightarrow> None)"

section \<open>Files\<close>

text \<open>
  The file system is a map from paths to contents. The record \<open>env\<close> is everything
  about a run that the program does not decide: the random part of the temporary file's
  name, and which operating-system calls fail. \<open>read_fails i\<close> and \<open>write_fails i\<close>
  speak of the \<open>i\<close>-th read and the \<open>i\<close>-th write of one update.
\<close>

type_synonym path = string

type_synonym filesystem = "path \<rightharpoonup> string"

record env =
  tmp_infix :: string
  mkstemp_fails :: bool
  open_fails :: bool
  read_fails :: "nat \<Rightarrow> bool"
  write_fails :: "nat \<Rightarrow> bool"
  close_fails :: bool
  replace_fails :: bool
  remove_fails :: bool

text \<open>
  \<^verbatim>\<open>tempfile.mkstemp(prefix, suffix, dir)\<close> creates an empty file under a name that did
  not exist before; when it finds none it raises \<^verbatim>\<open>FileExistsError\<close>.
\<close>

definition mkstemp :: "env \<Rightarrow> string \<Rightarrow> string \<Rightarrow> string \<Rightarrow> filesystem \<Rightarrow> (exn + path) \<times> filesystem" where
  "mkstemp e prefix suffix dir fs =
     (let name = dir @ ''/'' @ prefix @ tmp_infix e @ suffix
      in if mkstemp_fails e then (Inl ''OSError'', fs)
         else if fs name \<noteq> None then (Inl ''FileExistsError'', fs)
         else (Inr name, fs(name \<mapsto> [])))"

text \<open>\<^verbatim>\<open>os.replace(src, dst)\<close>: one atomic rename, or an exception and no change.\<close>

definition os_replace :: "env \<Rightarrow> path \<Rightarrow> path \<Rightarrow> filesystem \<Rightarrow> exn option \<times> filesystem" where
  "os_replace e src dst fs =
     (if replace_fails e then (Some ''OSError'', fs)
      else case fs src of
             None \<Rightarrow> (Some ''FileNotFoundError'', fs)
           | Some content \<Rightarrow> (None, (fs(dst \<mapsto> content))(src := None)))"

definition os_remove :: "env \<Rightarrow> path \<Rightarrow> filesystem \<Rightarrow> exn option \<times> filesystem" where
  "os_remove e p fs =
     (if remove_fails e then (Some ''OSError'', fs)
      else if fs p = None then (Some ''FileNotFoundError'', fs)
      else (None, fs(p := None)))"

text \<open>
  Iterating over a text file opened with \<^verbatim>\<open>newline=""\<close>: lines end at a line feed, at
  a carriage return, or at the two together, and keep their ending.
\<close>

fun readlines_from :: "string \<Rightarrow> string \<Rightarrow> string list" where
  "readlines_from cur [] = (if cur = [] then [] else [cur])"
| "readlines_from cur (c # cs) =
     (if c = LF then (cur @ [LF]) # readlines_from [] cs
      else if c = CR then
        (case cs of
           [] \<Rightarrow> [cur @ [CR]]
         | d # ds \<Rightarrow>
             if d = LF then (cur @ [CR, LF]) # readlines_from [] ds
             else (cur @ [CR]) # readlines_from [] cs)
      else readlines_from (cur @ [c]) cs)"

definition readlines :: "string \<Rightarrow> string list" where
  "readlines content = readlines_from [] content"

section \<open>Updating the version constant\<close>

text \<open>The pattern \<^verbatim>\<open>VERSION:\s*Final\[str\]\s*=\s*".*?"\s*\n?\<close>\<close>

definition version_pattern :: regex where
  "version_pattern =
     seqs [literal ''VERSION:'', Star Space, literal ''Final[str]'', Star Space, Chr CHR ''='',
           Star Space, Chr DQUOTE, Star Dot, Chr DQUOTE, Star Space, Opt (Chr LF)]"

text \<open>The line \<^verbatim>\<open>f'VERSION: Final[str] = "{bumped_version}"\n'\<close>\<close>

definition assignment_line :: "string \<Rightarrow> string" where
  "assignment_line bumped_version =
     ''VERSION: Final[str] = '' @ [DQUOTE] @ bumped_version @ [DQUOTE] @ [LF]"

text \<open>The body of the loop: what is written for a line, and the flag after it.\<close>

definition rewrite_line :: "string \<Rightarrow> bool \<Rightarrow> string \<Rightarrow> string \<times> bool" where
  "rewrite_line bumped_version replaced line =
     (let contains_version = fullmatch version_pattern line
      in if \<not> replaced \<and> contains_version then (assignment_line bumped_version, True)
         else (line, replaced))"

text \<open>
  The loop over the lines of the source file, writing to the temporary file: the number
  of the line, the flag, the lines still to read, and what has been written. It ends
  with the exception raised, if any, and the text written until then.
\<close>

fun copy_lines :: "env \<Rightarrow> string \<Rightarrow> nat \<Rightarrow> bool \<Rightarrow> string list \<Rightarrow> string \<Rightarrow> exn option \<times> string" where
  "copy_lines e bumped_version i replaced [] out = (None, out)"
| "copy_lines e bumped_version i replaced (line # rest) out =
     (if read_fails e i then (Some ''OSError'', out)
      else
        let (written, replaced') = rewrite_line bumped_version replaced line
        in if write_fails e i then (Some ''OSError'', out)
           else copy_lines e bumped_version (Suc i) replaced' rest (out @ written))"

definition init_dir :: path where
  "init_dir = ''src/asf/example''"

definition init_path :: path where
  "init_path = init_dir @ ''/__init__.py''"

text \<open>
  The \<^verbatim>\<open>try\<close> block of \<^verbatim>\<open>update_init_version\<close>: the \<^verbatim>\<open>with\<close> statement that opens
  both files, runs the loop and closes them, and then the rename.
\<close>

definition init_try_block :: "env \<Rightarrow> string \<Rightarrow> path \<Rightarrow> filesystem \<Rightarrow> exn option \<times> filesystem" where
  "init_try_block e bumped_version tmp_name fs =
     (if open_fails e then (Some ''OSError'', fs)
      else
        case fs init_path of
          None \<Rightarrow> (Some ''FileNotFoundError'', fs)
        | Some content \<Rightarrow>
            (case copy_lines e bumped_version 0 False (readlines content) [] of
               (Some x, out) \<Rightarrow> (Some x, fs(tmp_name \<mapsto> out))
             | (None, out) \<Rightarrow>
                 if close_fails e then (Some ''OSError'', fs(tmp_name \<mapsto> out))
                 else os_replace e tmp_name init_path (fs(tmp_name \<mapsto> out))))"

definition update_init_version :: "env \<Rightarrow> string \<Rightarrow> filesystem \<Rightarrow> (error + unit) \<times> filesystem" where
  "update_init_version e bumped_version fs =
     (case mkstemp e ''__init__.'' ''.tmp'' init_dir fs of
        (Inl x, fs0) \<Rightarrow> (Inl (Uncaught x), fs0)
      | (Inr tmp_name, fs0) \<Rightarrow>
          (case init_try_block e bumped_version tmp_name fs0 of
             (None, fs1) \<Rightarrow> (Inr (), fs1)
           | (Some x, fs1) \<Rightarrow> (Inl InitUpdateFailed, snd (os_remove e tmp_name fs1))))"

section \<open>Updating the manifest\<close>

definition pyproject_path :: path where
  "pyproject_path = ''pyproject.toml''"

text \<open>
  The \<^verbatim>\<open>try\<close> block of \<^verbatim>\<open>update_pyproject_version\<close>. The parameter \<open>now\<close> is the
  formatted time of the call. An error that is no exception (\<^verbatim>\<open>SystemExit\<close> from
  \<^verbatim>\<open>replace_key_in_section\<close>) leaves the block like an exception does.
\<close>

definition pyproject_try_block ::
  "(string \<Rightarrow> exn + container) \<Rightarrow> (container \<Rightarrow> string) \<Rightarrow> string \<Rightarrow> env \<Rightarrow> string \<Rightarrow> path
     \<Rightarrow> filesystem \<Rightarrow> error option \<times> filesystem" where
  "pyproject_try_block toml_parse toml_dumps now e bumped_version tmp_name fs =
     (if open_fails e then (Some (Uncaught ''OSError''), fs)
      else
        case fs pyproject_path of
          None \<Rightarrow> (Some (Uncaught ''FileNotFoundError''), fs)
        | Some content \<Rightarrow>
            if read_fails e 0 then (Some (Uncaught ''OSError''), fs)
            else
              case replace_key_in_section toml_parse toml_dumps content
                     ''project'' ''version'' bumped_version of
                Inl err \<Rightarrow> (Some err, fs)
              | Inr content1 \<Rightarrow>
                  (case replace_key_in_section toml_parse toml_dumps content1
                          ''tool.uv'' ''exclude-newer'' now of
                     Inl err \<Rightarrow> (Some err, fs)
                   | Inr content2 \<Rightarrow>
                       if write_fails e 0 then (Some (Uncaught ''OSError''), fs)
                       else if close_fails e
                         then (Some (Uncaught ''OSError''), fs(tmp_name \<mapsto> content2))
                       else
                         case os_replace e tmp_name pyproject_path (fs(tmp_name \<mapsto> content2)) of
                           (Some x, fs1) \<Rightarrow> (Some (Uncaught x), fs1)
                         | (None, fs1) \<Rightarrow> (None, fs1)))"

text \<open>
  \<^verbatim>\<open>except Exception as exc\<close> handles exceptions only: it removes the temporary file,
  ignoring a failure to do so, and reports. Any other error passes through it.
\<close>

definition update_pyproject_version ::
  "(string \<Rightarrow> exn + container) \<Rightarrow> (container \<Rightarrow> string) \<Rightarrow> string \<Rightarrow> env \<Rightarrow> string
     \<Rightarrow> filesystem \<Rightarrow> (error + unit) \<times> filesystem" where
  "update_pyproject_version toml_parse toml_dumps now e bumped_version fs =
     (case mkstemp e ''pyproject.'' ''.tmp'' ''.'' fs of
        (Inl x, fs0) \<Rightarrow> (Inl (Uncaught x), fs0)
      | (Inr tmp_name, fs0) \<Rightarrow>
          (case pyproject_try_block toml_parse toml_dumps now e bumped_version tmp_name fs0 of
             (None, fs1) \<Rightarrow> (Inr (), fs1)
           | (Some (Uncaught exc), fs1) \<Rightarrow>
               (Inl (PyprojectUpdateFailed exc), snd (os_remove e tmp_name fs1))
           | (Some err, fs1) \<Rightarrow> (Inl err, fs1)))"

section \<open>Runs without failing system calls\<close>

definition no_io_faults :: "env \<Rightarrow> bool" where
  "no_io_faults e \<longleftrightarrow>
     \<not> mkstemp_fails e \<and> \<not> open_fails e \<and> (\<forall>i. \<not> read_fails e i) \<and> (\<forall>i. \<not> write_fails e i)
     \<and> \<not> close_fails e \<and> \<not> replace_fails e"

section \<open>The shape of the lines of a file\<close>

text \<open>
  The line lists that reading a file can give: every line but the last ends in a line
  break, no line has a break before its ending, the last line is not empty, and a line
  that ends in a lone carriage return is not followed by a line that starts with a
  line feed.
\<close>

definition is_break :: "char \<Rightarrow> bool" where
  "is_break c \<longleftrightarrow> c = LF \<or> c = CR"

definition ending :: "string \<Rightarrow> string" where
  "ending l = dropWhile (\<lambda>c. \<not> is_break c) l"

fun file_lines :: "string list \<Rightarrow> bool" where
  "file_lines [] = True"
| "file_lines [l] =
     (l \<noteq> [] \<and> (ending l = [] \<or> ending l = [LF] \<or> ending l = [CR] \<or> ending l = [CR, LF]))"
| "file_lines (l # l' # ls) =
     ((ending l = [LF] \<or> ending l = [CR, LF] \<or> (ending l = [CR] \<and> hd l' \<noteq> LF))
      \<and> file_lines (l' # ls))"

section \<open>Example inputs\<close>

text \<open>
  A manifest that records a version, a checkout whose history tip holds it, and a
  parser that reads exactly this manifest.
\<close>

definition example_manifest :: "string \<Rightarrow> string" where
  "example_manifest v = ''[project]'' @ [LF] @ ''version = '' @ [DQUOTE] @ v @ [DQUOTE] @ [LF]"

definition example_repo :: "string \<Rightarrow> repository" where
  "example_repo v =
     \<lparr>is_bare = False,
      revparse_single =
        (\<lambda>spec. if spec = ''HEAD:pyproject.toml'' then Inr (Blob (example_manifest v))
                else Inl ''KeyError'')\<rparr>"

definition example_toml :: "string \<Rightarrow> string \<Rightarrow> exn + container" where
  "example_toml v content =
     (if content = example_manifest v then Inr [(''project'', Table [(''version'', String v)])]
      else Inl ''ParseError'')"

text \<open>A checkout whose history has no manifest, and a bare repository.\<close>

definition empty_repo :: repository where
  "empty_repo = \<lparr>is_bare = False, revparse_single = (\<lambda>spec. Inl ''KeyError'')\<rparr>"

definition bare_repo :: repository where
  "bare_repo = \<lparr>is_bare = True, revparse_single = (\<lambda>spec. Inl ''KeyError'')\<rparr>"

text \<open>
  A checkout whose history tip holds a directory under the manifest's name, and a
  parser that reads every blob as a document with a name and no version.
\<close>

definition tree_repo :: repository where
  "tree_repo = \<lparr>is_bare = False, revparse_single = (\<lambda>spec. Inr Tree)\<rparr>"

definition toml_without_version :: "string \<Rightarrow> exn + container" where
  "toml_without_version content = Inr [(''project'', Table [(''name'', String ''asf-example'')])]"

text \<open>A run in which no system call fails, and a source file with two matching lines.\<close>

definition example_env :: env where
  "example_env =
     \<lparr>tmp_infix = ''k3x9'', mkstemp_fails = False, open_fails = False,
      read_fails = (\<lambda>i. False), write_fails = (\<lambda>i. False), close_fails = False,
      replace_fails = False, remove_fails = False\<rparr>"

definition example_init :: string where
  "example_init =
     ''PROJECT = 1'' @ [LF]
     @ ''VERSION: Final[str] = '' @ [DQUOTE] @ ''0.1'' @ [DQUOTE] @ [LF]
     @ ''VERSION:Final[str]='' @ [DQUOTE] @ ''old'' @ [DQUOTE] @ [LF]"

definition example_fs :: filesystem where
  "example_fs = [init_path \<mapsto> example_init, pyproject_path \<mapsto> ''not a document'']"

text \<open>
  A run in which the second write fails, a run in which the temporary file cannot be
  removed, and a serialiser that writes the version of a document only.
\<close>

definition write_fault_env :: env where
  "write_fault_env = example_env\<lparr>write_fails := (\<lambda>i. i = 1)\<rparr>"

definition remove_fault_env :: env where
  "remove_fault_env = example_env\<lparr>remove_fails := True\<rparr>"

definition example_dumps :: "container \<Rightarrow> string" where
  "example_dumps doc =
     (case get_path [''project'', ''version''] doc of
        Some (String s) \<Rightarrow> example_manifest s
      | _ \<Rightarrow> [])"

section \<open>The matcher decides the language of a pattern\<close>

lemma conc_iff: "w \<in> conc A B \<longleftrightarrow> (\<exists>u v. w = u @ v \<and> u \<in> A \<and> v \<in> B)"
  by (auto simp: conc_def)

lemma nullable_lang: "nullable r \<longleftrightarrow> [] \<in> lang r"
  by (induction r) (auto simp: conc_iff intro: star_nil)

lemma Cons_conc_iff:
  "c # w \<in> conc A B \<longleftrightarrow>
     (\<exists>u v. w = u @ v \<and> c # u \<in> A \<and> v \<in> B) \<or> ([] \<in> A \<and> c # w \<in> B)"
  by (auto simp: conc_iff Cons_eq_append_conv)

lemma star_Cons_split:
  assumes "x \<in> star A" and "x = c # w"
  shows "\<exists>u v. w = u @ v \<and> c # u \<in> A \<and> v \<in> star A"
  using assms
proof (induction arbitrary: w)
  case star_nil
  then show ?case by simp
next
  case (star_step u v)
  show ?case
  proof (cases u)
    case Nil
    with star_step show ?thesis by simp
  next
    case (Cons d u')
    with star_step.prems have "d = c" and "w = u' @ v" by simp_all
    with Cons star_step.hyps show ?thesis by blast
  qed
qed

lemma Cons_star_iff:
  "c # w \<in> star A \<longleftrightarrow> (\<exists>u v. w = u @ v \<and> c # u \<in> A \<and> v \<in> star A)"
proof
  assume "c # w \<in> star A"
  then show "\<exists>u v. w = u @ v \<and> c # u \<in> A \<and> v \<in> star A"
    by (rule star_Cons_split) simp
next
  assume "\<exists>u v. w = u @ v \<and> c # u \<in> A \<and> v \<in> star A"
  then obtain u v where "w = u @ v" "c # u \<in> A" "v \<in> star A" by blast
  then show "c # w \<in> star A"
    using star_step [of "c # u" A v] by simp
qed

lemma deriv_lang: "w \<in> lang (deriv c r) \<longleftrightarrow> c # w \<in> lang r"
proof (induction r arbitrary: w)
  case (Seq r s)
  have "w \<in> lang (deriv c (Seq r s)) \<longleftrightarrow>
          (\<exists>u v. w = u @ v \<and> c # u \<in> lang r \<and> v \<in> lang s) \<or> ([] \<in> lang r \<and> c # w \<in> lang s)"
    using Seq by (auto simp: conc_iff nullable_lang)
  also have "\<dots> \<longleftrightarrow> c # w \<in> lang (Seq r s)"
    by (simp add: Cons_conc_iff)
  finally show ?case .
next
  case (Star r)
  have "w \<in> lang (deriv c (Star r)) \<longleftrightarrow>
          (\<exists>u v. w = u @ v \<and> c # u \<in> lang r \<and> v \<in> star (lang r))"
    using Star by (auto simp: conc_iff)
  also have "\<dots> \<longleftrightarrow> c # w \<in> lang (Star r)"
    by (simp add: Cons_star_iff)
  finally show ?case .
next
  case (Plus r)
  have "w \<in> lang (deriv c (Plus r)) \<longleftrightarrow>
          (\<exists>u v. w = u @ v \<and> c # u \<in> lang r \<and> v \<in> star (lang r))"
    using Plus by (auto simp: conc_iff)
  also have "\<dots> \<longleftrightarrow> c # w \<in> lang (Plus r)"
  proof -
    have "[] \<in> lang r \<and> c # w \<in> star (lang r) \<Longrightarrow>
            \<exists>u v. w = u @ v \<and> c # u \<in> lang r \<and> v \<in> star (lang r)"
      by (simp add: Cons_star_iff)
    then show ?thesis
      by (auto simp: Cons_conc_iff)
  qed
  finally show ?case .
qed (auto simp: conc_iff)

lemma foldl_deriv_lang: "nullable (foldl (\<lambda>r c. deriv c r) r w) \<longleftrightarrow> w \<in> lang r"
  by (induction w arbitrary: r) (simp_all add: nullable_lang deriv_lang)

lemma fullmatch_lang: "fullmatch r w \<longleftrightarrow> w \<in> lang r"
  by (simp add: fullmatch_def foldl_deriv_lang)

lemma star_class: "star {[c] | c. P c} = {w. \<forall>c \<in> set w. P c}"
proof (rule set_eqI, rule iffI)
  fix w assume "w \<in> star {[c] | c. P c}"
  then show "w \<in> {w. \<forall>c \<in> set w. P c}"
    by induction auto
next
  fix w assume "w \<in> {w. \<forall>c \<in> set w. P c}"
  then have "\<forall>c \<in> set w. P c" by simp
  then show "w \<in> star {[c] | c. P c}"
  proof (induction w)
    case Nil
    show ?case by (rule star_nil)
  next
    case (Cons a w)
    then have "[a] \<in> {[c] | c. P c}" and "w \<in> star {[c] | c. P c}" by auto
    then have "[a] @ w \<in> star {[c] | c. P c}" by (rule star_step)
    then show ?case by simp
  qed
qed

lemma conc_single: "w \<in> conc {[c]} B \<longleftrightarrow> (\<exists>v. w = c # v \<and> v \<in> B)"
  by (simp add: conc_iff)

lemma lang_literal: "w \<in> lang (literal s) \<longleftrightarrow> w = s"
proof (induction s arbitrary: w)
  case Nil
  show ?case by simp
next
  case (Cons c s)
  show ?case by (auto simp: conc_single Cons)
qed

section \<open>The version pattern and the grammar\<close>

lemma in_lang_Seq: "w \<in> lang (Seq r s) \<longleftrightarrow> (\<exists>u v. w = u @ v \<and> u \<in> lang r \<and> v \<in> lang s)"
  by (simp add: conc_iff)

lemma in_lang_Plus_Digit: "w \<in> lang (Plus Digit) \<longleftrightarrow> digits1 w"
proof (cases w)
  case Nil
  then show ?thesis by (simp add: conc_iff digits1_def)
next
  case (Cons c cs)
  then show ?thesis
    by (auto simp: Cons_conc_iff star_class digits1_def list_all_iff)
qed

lemma in_lang_dev_suffix:
  "w \<in> lang (Opt (seqs [literal ''-dev'', Plus Digit])) \<longleftrightarrow>
     (\<exists>d. pred_option digits1 d \<and> w = (case d of None \<Rightarrow> [] | Some x \<Rightarrow> ''-dev'' @ x))"
proof -
  have "w \<in> lang (Opt (seqs [literal ''-dev'', Plus Digit])) \<longleftrightarrow>
          w = [] \<or> (\<exists>x. digits1 x \<and> w = ''-dev'' @ x)"
    using in_lang_Plus_Digit lang_literal [of _ "''-dev''"]
    by (auto simp: conc_iff simp del: lang.simps(10) literal.simps)
  also have "\<dots> \<longleftrightarrow>
      (\<exists>d. pred_option digits1 d \<and> w = (case d of None \<Rightarrow> [] | Some x \<Rightarrow> ''-dev'' @ x))"
  proof
    assume "w = [] \<or> (\<exists>x. digits1 x \<and> w = ''-dev'' @ x)"
    then show "\<exists>d. pred_option digits1 d \<and> w = (case d of None \<Rightarrow> [] | Some x \<Rightarrow> ''-dev'' @ x)"
    proof
      assume "w = []"
      then show ?thesis by (intro exI [of _ None]) simp
    next
      assume "\<exists>x. digits1 x \<and> w = ''-dev'' @ x"
      then obtain x where "digits1 x" "w = ''-dev'' @ x" by blast
      then show ?thesis by (intro exI [of _ "Some x"]) simp
    qed
  next
    assume "\<exists>d. pred_option digits1 d \<and> w = (case d of None \<Rightarrow> [] | Some x \<Rightarrow> ''-dev'' @ x)"
    then obtain d where d: "pred_option digits1 d"
      "w = (case d of None \<Rightarrow> [] | Some x \<Rightarrow> ''-dev'' @ x)" by blast
    then show "w = [] \<or> (\<exists>x. digits1 x \<and> w = ''-dev'' @ x)"
      by (cases d) auto
  qed
  finally show ?thesis .
qed

lemma lang_SeqI: "u \<in> lang r \<Longrightarrow> v \<in> lang s \<Longrightarrow> u @ v \<in> lang (Seq r s)"
  by (auto simp: conc_iff)

lemma lang_Chr_SeqI: "v \<in> lang s \<Longrightarrow> c # v \<in> lang (Seq (Chr c) s)"
  by (simp add: conc_single)

lemma lang_SeqE:
  assumes "w \<in> lang (Seq r s)"
  obtains u v where "w = u @ v" "u \<in> lang r" "v \<in> lang s"
  using assms by (auto simp: conc_iff)

lemma lang_Chr_SeqE:
  assumes "w \<in> lang (Seq (Chr c) s)"
  obtains v where "w = c # v" "v \<in> lang s"
  using assms by (auto simp: conc_single)

lemma lang_Seq_Empty: "w \<in> lang (Seq r Empty) \<longleftrightarrow> w \<in> lang r"
  by (simp add: conc_iff)

lemma version_re_unfold:
  "version_re =
     Seq (Plus Digit) (Seq (Chr CHR ''.'') (Seq (Plus Digit) (Seq (Chr CHR ''.'')
       (Seq (Plus Digit) (Seq (Opt (seqs [literal ''-dev'', Plus Digit])) Empty)))))"
  by (simp add: version_re_def)

lemma lang_version_re: "w \<in> lang version_re \<longleftrightarrow> version_grammar w"
proof
  assume "w \<in> lang version_re"
  then have w: "w \<in> lang (Seq (Plus Digit) (Seq (Chr CHR ''.'') (Seq (Plus Digit)
      (Seq (Chr CHR ''.'') (Seq (Plus Digit)
        (Seq (Opt (seqs [literal ''-dev'', Plus Digit])) Empty))))))"
    by (simp only: version_re_unfold)
  from w obtain a r1 where 1: "w = a @ r1" "a \<in> lang (Plus Digit)"
    and r1: "r1 \<in> lang (Seq (Chr CHR ''.'') (Seq (Plus Digit)
      (Seq (Chr CHR ''.'') (Seq (Plus Digit)
        (Seq (Opt (seqs [literal ''-dev'', Plus Digit])) Empty)))))"
    by (rule lang_SeqE)
  from r1 obtain r2 where 2: "r1 = CHR ''.'' # r2"
    and r2: "r2 \<in> lang (Seq (Plus Digit)
      (Seq (Chr CHR ''.'') (Seq (Plus Digit)
        (Seq (Opt (seqs [literal ''-dev'', Plus Digit])) Empty))))"
    by (rule lang_Chr_SeqE)
  from r2 obtain b r3 where 3: "r2 = b @ r3" "b \<in> lang (Plus Digit)"
    and r3: "r3 \<in> lang (Seq (Chr CHR ''.'') (Seq (Plus Digit)
        (Seq (Opt (seqs [literal ''-dev'', Plus Digit])) Empty)))"
    by (rule lang_SeqE)
  from r3 obtain r4 where 4: "r3 = CHR ''.'' # r4"
    and r4: "r4 \<in> lang (Seq (Plus Digit)
        (Seq (Opt (seqs [literal ''-dev'', Plus Digit])) Empty))"
    by (rule lang_Chr_SeqE)
  from r4 obtain c t where 5: "r4 = c @ t" "c \<in> lang (Plus Digit)"
    and t: "t \<in> lang (Seq (Opt (seqs [literal ''-dev'', Plus Digit])) Empty)"
    by (rule lang_SeqE)
  from t have "t \<in> lang (Opt (seqs [literal ''-dev'', Plus Digit]))"
    by (simp only: lang_Seq_Empty)
  then obtain d where d: "pred_option digits1 d"
    "t = (case d of None \<Rightarrow> [] | Some x \<Rightarrow> ''-dev'' @ x)"
    unfolding in_lang_dev_suffix by blast
  have "w = version_text a b c d"
    using 1(1) 2 3(1) 4 5(1) d(2) by (simp add: version_text_def)
  moreover have "digits1 a" "digits1 b" "digits1 c"
    using 1(2) 3(2) 5(2) by (simp_all only: in_lang_Plus_Digit)
  ultimately show "version_grammar w"
    unfolding version_grammar_def using d(1) by blast
next
  assume "version_grammar w"
  then obtain a b c d where g: "digits1 a" "digits1 b" "digits1 c" "pred_option digits1 d"
    and w: "w = version_text a b c d"
    unfolding version_grammar_def by blast
  let ?t = "case d of None \<Rightarrow> [] | Some x \<Rightarrow> ''-dev'' @ x"
  have "?t \<in> lang (Opt (seqs [literal ''-dev'', Plus Digit]))"
    unfolding in_lang_dev_suffix using g(4) by blast
  then have "?t \<in> lang (Seq (Opt (seqs [literal ''-dev'', Plus Digit])) Empty)"
    by (simp only: lang_Seq_Empty)
  moreover have "a \<in> lang (Plus Digit)" "b \<in> lang (Plus Digit)" "c \<in> lang (Plus Digit)"
    using g(1-3) by (simp_all only: in_lang_Plus_Digit)
  ultimately have "a @ CHR ''.'' # b @ CHR ''.'' # c @ ?t \<in> lang version_re"
    unfolding version_re_unfold
    by (intro lang_SeqI lang_Chr_SeqI)
  then show "w \<in> lang version_re"
    by (simp add: w version_text_def)
qed

lemma fullmatch_version_re: "fullmatch version_re w \<longleftrightarrow> version_grammar w"
  by (simp add: fullmatch_lang lang_version_re)

section \<open>The groups of a match\<close>

lemma not_digit_dot [simp]: "\<not> is_digit CHR ''.''"
  by (simp add: is_digit_def)

lemma not_digit_dash [simp]: "\<not> is_digit CHR ''-''"
  by (simp add: is_digit_def)

lemma takeWhile_digits:
  "list_all is_digit a \<Longrightarrow> \<not> is_digit y \<Longrightarrow> takeWhile is_digit (a @ y # r) = a"
  by (induction a) simp_all

lemma dropWhile_digits:
  "list_all is_digit a \<Longrightarrow> \<not> is_digit y \<Longrightarrow> dropWhile is_digit (a @ y # r) = y # r"
  by (induction a) simp_all

lemma takeWhile_all_digits: "list_all is_digit a \<Longrightarrow> takeWhile is_digit a = a"
  by (induction a) simp_all

lemma dropWhile_all_digits: "list_all is_digit a \<Longrightarrow> dropWhile is_digit a = []"
  by (induction a) simp_all

lemma match_groups_version_text:
  assumes "digits1 a" "digits1 b" "digits1 c" "pred_option digits1 d"
  shows "match_groups (version_text a b c d) = Some (a, b, c, d)"
proof -
  have m: "fullmatch version_re (version_text a b c d)"
    unfolding fullmatch_version_re version_grammar_def using assms by blast
  have da: "list_all is_digit a" and db: "list_all is_digit b" and dc: "list_all is_digit c"
    using assms by (simp_all add: digits1_def)
  show ?thesis
  proof (cases d)
    case None
    then show ?thesis
      using m da db dc
      by (simp add: match_groups_def version_text_def takeWhile_digits dropWhile_digits
          takeWhile_all_digits dropWhile_all_digits Let_def list_all_iff)
  next
    case (Some x)
    then show ?thesis
      using m da db dc
      by (simp add: match_groups_def version_text_def takeWhile_digits dropWhile_digits Let_def
          list_all_iff)
  qed
qed

lemma match_groups_sound:
  assumes "match_groups v = Some (a, b, c, d)"
  shows "digits1 a \<and> digits1 b \<and> digits1 c \<and> pred_option digits1 d \<and> v = version_text a b c d"
proof -
  from assms have "fullmatch version_re v"
    by (simp add: match_groups_def split: if_splits)
  then obtain a' b' c' d' where g: "digits1 a'" "digits1 b'" "digits1 c'" "pred_option digits1 d'"
    and v: "v = version_text a' b' c' d'"
    unfolding fullmatch_version_re version_grammar_def by blast
  from g have "match_groups (version_text a' b' c' d') = Some (a', b', c', d')"
    by (rule match_groups_version_text)
  with assms v have "a = a'" "b = b'" "c = c'" "d = d'" by simp_all
  with g v show ?thesis by simp
qed





section \<open>Decimal numerals\<close>








lemma py_int_Nil: "py_int [] = 0"
  by (simp add: py_int_def)











section \<open>The claims about the version model and the bump\<close>

lemmas eval_match = fullmatch_def version_re_def is_digit_def is_space_def LF_def CR_def DQUOTE_def

lemmas eval_parse = parse_version_def match_groups_def py_int_def digit_value_def Let_def eval_match



lemmas eval_read = read_head_version_def project_version_def example_repo_def example_toml_def
  example_manifest_def empty_repo_def bare_repo_def


text \<open>
  Claim C6. In mode Specific the caller's string comes back verbatim, whatever it is and
  whatever the repository holds, and the previous version of the result is the zero
  version. The repository is not read.
\<close>

theorem specific_passthrough:
  "calculate_bumped_version toml_parse repository SPECIFIC (Some v)
     = Inr (ZERO_VERSION_SENTINEL, v)"
  by (simp add: calculate_bumped_version_def)

text \<open>
  Claim C9. Mode Specific without a payload string is a reported error
  (\<^verbatim>\<open>specific version required\<close>); no version is computed.
\<close>

theorem specific_requires_payload:
  "calculate_bumped_version toml_parse repository SPECIFIC None = Inl SpecificVersionRequired"
  by (simp add: calculate_bumped_version_def)






section \<open>The structured edit\<close>

lemma split_on_nonempty: "split_on sep s \<noteq> []"
  by (induction s) simp_all

text \<open>The table the loop descends into at a key: the one that is there, or a new one.\<close>

lemma set_in_section_step:
  assumes "set_in_section parts key val
      (case map_of current part of Some (Table t) \<Rightarrow> t | _ \<Rightarrow> []) = Inr t'"
  shows "set_in_section (part # parts) key val current
      = Inr (AList.update part (Table t') current)"
proof (cases "is_Table (map_of current part)")
  case True
  then obtain t where t: "map_of current part = Some (Table t)"
    by (cases "map_of current part" rule: is_Table.cases) simp_all
  with assms show ?thesis by simp
next
  case False
  then have "(case map_of current part of Some (Table t) \<Rightarrow> t | _ \<Rightarrow> []) = []"
    by (cases "map_of current part" rule: is_Table.cases) simp_all
  with assms False show ?thesis
    by (simp add: update_conv')
qed

lemma set_in_section_total: "\<exists>doc'. set_in_section parts key val doc = Inr doc'"
proof (induction parts arbitrary: doc)
  case Nil
  show ?case by simp
next
  case (Cons part parts)
  obtain t' where "set_in_section parts key val
      (case map_of doc part of Some (Table t) \<Rightarrow> t | _ \<Rightarrow> []) = Inr t'"
    using Cons by blast
  then show ?case
    using set_in_section_step by blast
qed

lemma get_path_Cons_update:
  "get_path (k # ks) (AList.update k (Table t) doc) = (if ks = [] then Some (Table t) else get_path ks t)"
  by (cases ks) (simp_all add: update_conv')

lemma set_in_section_sets:
  "set_in_section parts key val doc = Inr doc' \<Longrightarrow>
     get_path (parts @ [key]) doc' = Some (String val)"
proof (induction parts arbitrary: doc doc')
  case Nil
  then show ?case by (auto simp: update_conv')
next
  case (Cons part parts)
  obtain t' where t': "set_in_section parts key val
      (case map_of doc part of Some (Table t) \<Rightarrow> t | _ \<Rightarrow> []) = Inr t'"
    using set_in_section_total by blast
  then have "get_path (parts @ [key]) t' = Some (String val)"
    by (rule Cons.IH)
  moreover have "doc' = AList.update part (Table t') doc"
    using set_in_section_step [OF t'] Cons.prems by simp
  ultimately show ?case
    by (simp add: get_path_Cons_update)
qed

lemma set_in_section_tables:
  "set_in_section parts key val doc = Inr doc' \<Longrightarrow> parts = ps @ qs \<Longrightarrow> ps \<noteq> [] \<Longrightarrow>
     \<exists>t. get_path ps doc' = Some (Table t)"
proof (induction parts arbitrary: doc doc' ps)
  case Nil
  then show ?case by simp
next
  case (Cons part parts)
  obtain t' where t': "set_in_section parts key val
      (case map_of doc part of Some (Table t) \<Rightarrow> t | _ \<Rightarrow> []) = Inr t'"
    using set_in_section_total by blast
  have doc': "doc' = AList.update part (Table t') doc"
    using set_in_section_step [OF t'] Cons.prems(1) by simp
  from Cons.prems(2,3) obtain ps' where ps: "ps = part # ps'" "parts = ps' @ qs"
    by (cases ps) auto
  show ?case
  proof (cases "ps' = []")
    case True
    with ps doc' show ?thesis by (simp add: update_conv')
  next
    case False
    with t' ps(2) have "\<exists>t. get_path ps' t' = Some (Table t)"
      by (rule Cons.IH)
    with False ps doc' show ?thesis
      by (simp add: get_path_Cons_update)
  qed
qed

lemma set_in_section_other_keys:
  "set_in_section (part # parts) key val doc = Inr doc' \<Longrightarrow> k \<noteq> part \<Longrightarrow>
     map_of doc' k = map_of doc k"
proof -
  assume a: "set_in_section (part # parts) key val doc = Inr doc'" and k: "k \<noteq> part"
  obtain t' where t': "set_in_section parts key val
      (case map_of doc part of Some (Table t) \<Rightarrow> t | _ \<Rightarrow> []) = Inr t'"
    using set_in_section_total by blast
  have "doc' = AList.update part (Table t') doc"
    using set_in_section_step [OF t'] a by simp
  with k show ?thesis by (simp add: update_conv')
qed

text \<open>
  Claim C4 as stated fails: with \<^verbatim>\<open>project = "x"\<close> in the document, setting
  \<^verbatim>\<open>project.version\<close> does not fail; the string entry is replaced by a table.
\<close>

theorem structured_edit_replaces_non_table_counterexample:
  "map_of [(''project'', String ''x'')] ''project'' = Some (String ''x'')
   \<and> replace_key_in_doc ''project'' ''version'' ''1.0'' [(''project'', String ''x'')]
       = Inr [(''project'', Table [(''version'', String ''1.0'')])]"
  by (simp add: replace_key_in_doc_def)

text \<open>
  Claim C4, amended. The structured edit never fails on a document: an entry along the
  section path that is missing or is no table is replaced by a new empty table (what it
  held is discarded), the descent goes on inside it, and the key is set there. So after
  the edit every non-empty prefix of the section path leads to a table, and the path
  followed by the key leads to the new string.
\<close>

theorem structured_edit_never_fails:
  "\<exists>doc'. replace_key_in_doc section key val doc = Inr doc'
     \<and> get_path (split_on CHR ''.'' section @ [key]) doc' = Some (String val)
     \<and> (\<forall>ps qs. split_on CHR ''.'' section = ps @ qs \<and> ps \<noteq> [] \<longrightarrow>
           (\<exists>t. get_path ps doc' = Some (Table t)))"
proof -
  obtain doc' where d: "set_in_section (split_on CHR ''.'' section) key val doc = Inr doc'"
    using set_in_section_total by blast
  have "get_path (split_on CHR ''.'' section @ [key]) doc' = Some (String val)"
    using d by (rule set_in_section_sets)
  moreover have "\<forall>ps qs. split_on CHR ''.'' section = ps @ qs \<and> ps \<noteq> [] \<longrightarrow>
           (\<exists>t. get_path ps doc' = Some (Table t))"
    using set_in_section_tables [OF d] by blast
  ultimately show ?thesis
    using d by (simp add: replace_key_in_doc_def)
qed

theorem structured_edit_never_fails_witness:
  "split_on CHR ''.'' ''tool.uv'' = [''tool''] @ [''uv'']
   \<and> map_of [(''name'', String ''n''), (''tool'', Integer 3)] ''tool'' = Some (Integer 3)
   \<and> replace_key_in_doc ''tool.uv'' ''exclude-newer'' ''now''
        [(''name'', String ''n''), (''tool'', Integer 3)]
      = Inr [(''name'', String ''n''),
             (''tool'', Table [(''uv'', Table [(''exclude-newer'', String ''now'')])])]
   \<and> get_path [''tool'']
        [(''name'', String ''n''),
         (''tool'', Table [(''uv'', Table [(''exclude-newer'', String ''now'')])])]
      = Some (Table [(''uv'', Table [(''exclude-newer'', String ''now'')])])"
proof -
  have s: "split_on CHR ''.'' ''tool.uv'' = [''tool''] @ [''uv'']"
    by simp
  have r: "replace_key_in_doc ''tool.uv'' ''exclude-newer'' ''now''
        [(''name'', String ''n''), (''tool'', Integer 3)]
      = Inr [(''name'', String ''n''),
             (''tool'', Table [(''uv'', Table [(''exclude-newer'', String ''now'')])])]"
    by (simp add: replace_key_in_doc_def)
  from structured_edit_never_fails [of "''tool.uv''" "''exclude-newer''" "''now''"
      "[(''name'', String ''n''), (''tool'', Integer 3)]"]
  obtain doc' where d: "replace_key_in_doc ''tool.uv'' ''exclude-newer'' ''now''
        [(''name'', String ''n''), (''tool'', Integer 3)] = Inr doc'"
    and t: "\<forall>ps qs. split_on CHR ''.'' ''tool.uv'' = ps @ qs \<and> ps \<noteq> [] \<longrightarrow>
           (\<exists>t. get_path ps doc' = Some (Table t))"
    by blast
  from t s have "\<exists>t. get_path [''tool''] doc' = Some (Table t)"
    by blast
  with d r show ?thesis
    using s by auto
qed

section \<open>The claim about the committed version\<close>

lemma read_head_version_zero_iff:
  "read_head_version toml_parse repo = Inr ZERO_VERSION_SENTINEL \<longleftrightarrow>
     \<not> is_bare repo
     \<and> ((\<exists>x. revparse_single repo ''HEAD:pyproject.toml'' = Inl x)
        \<or> (\<exists>data doc s. revparse_single repo ''HEAD:pyproject.toml'' = Inr (Blob data)
              \<and> toml_parse data = Inr doc
              \<and> project_version doc = Inr (Some (String s))
              \<and> parse_version s = Inr ZERO_VERSION_SENTINEL))"
  by (auto simp: read_head_version_def
      split: sum.splits git_object.splits option.splits item.splits)

text \<open>
  Claim C5 as stated fails: a manifest that exists at the history tip and records
  \<^verbatim>\<open>0.0.0\<close> makes the reader return the zero version too.
\<close>

theorem read_head_version_zero_counterexample:
  "revparse_single (example_repo ''0.0.0'') ''HEAD:pyproject.toml''
     = Inr (Blob (example_manifest ''0.0.0''))
   \<and> read_head_version (example_toml ''0.0.0'') (example_repo ''0.0.0'')
     = Inr ZERO_VERSION_SENTINEL"
  by (simp add: eval_read eval_parse ZERO_VERSION_SENTINEL_def)

text \<open>
  Claim C5, amended. On a bare repository the reader fails (a working tree is
  required). Otherwise: when looking the manifest up at the history tip raises, as it
  does when the path is not there, the reader returns the zero version; when the object
  found is no blob it fails with \<^verbatim>\<open>not a regular file\<close>; when the blob reads as a
  document whose \<open>project\<close> entry is absent or a table and whose version is missing or no
  string, it fails with \<^verbatim>\<open>version missing\<close>. The zero version is returned in two cases
  only: the lookup raised, or the committed version text itself parses to 0.0.0.
\<close>

theorem read_head_version_cases:
  "(is_bare repo \<longrightarrow> read_head_version toml_parse repo = Inl BareRepository)
   \<and> (\<not> is_bare repo \<and> revparse_single repo ''HEAD:pyproject.toml'' = Inl x \<longrightarrow>
        read_head_version toml_parse repo = Inr ZERO_VERSION_SENTINEL)
   \<and> (\<not> is_bare repo \<and> revparse_single repo ''HEAD:pyproject.toml'' = Inr obj
        \<and> (\<forall>data. obj \<noteq> Blob data) \<longrightarrow>
        read_head_version toml_parse repo = Inl NotRegularFile)
   \<and> (\<not> is_bare repo \<and> revparse_single repo ''HEAD:pyproject.toml'' = Inr (Blob data)
        \<and> toml_parse data = Inr doc \<and> project_version doc = Inr v
        \<and> (\<forall>s. v \<noteq> Some (String s)) \<longrightarrow>
        read_head_version toml_parse repo = Inl VersionMissing)
   \<and> (read_head_version toml_parse repo = Inr ZERO_VERSION_SENTINEL \<longleftrightarrow>
        \<not> is_bare repo
        \<and> ((\<exists>x. revparse_single repo ''HEAD:pyproject.toml'' = Inl x)
           \<or> (\<exists>data doc s. revparse_single repo ''HEAD:pyproject.toml'' = Inr (Blob data)
                 \<and> toml_parse data = Inr doc
                 \<and> project_version doc = Inr (Some (String s))
                 \<and> parse_version s = Inr ZERO_VERSION_SENTINEL)))"
proof (intro conjI impI)
  assume "is_bare repo"
  then show "read_head_version toml_parse repo = Inl BareRepository"
    by (simp add: read_head_version_def)
next
  assume "\<not> is_bare repo \<and> revparse_single repo ''HEAD:pyproject.toml'' = Inl x"
  then show "read_head_version toml_parse repo = Inr ZERO_VERSION_SENTINEL"
    by (simp add: read_head_version_def)
next
  assume "\<not> is_bare repo \<and> revparse_single repo ''HEAD:pyproject.toml'' = Inr obj
      \<and> (\<forall>data. obj \<noteq> Blob data)"
  then show "read_head_version toml_parse repo = Inl NotRegularFile"
    by (cases obj) (simp_all add: read_head_version_def)
next
  assume a: "\<not> is_bare repo \<and> revparse_single repo ''HEAD:pyproject.toml'' = Inr (Blob data)
      \<and> toml_parse data = Inr doc \<and> project_version doc = Inr v
      \<and> (\<forall>s. v \<noteq> Some (String s))"
  then show "read_head_version toml_parse repo = Inl VersionMissing"
    by (auto simp: read_head_version_def split: option.splits item.splits)
next
  show "read_head_version toml_parse repo = Inr ZERO_VERSION_SENTINEL \<longleftrightarrow>
        \<not> is_bare repo
        \<and> ((\<exists>x. revparse_single repo ''HEAD:pyproject.toml'' = Inl x)
           \<or> (\<exists>data doc s. revparse_single repo ''HEAD:pyproject.toml'' = Inr (Blob data)
                 \<and> toml_parse data = Inr doc
                 \<and> project_version doc = Inr (Some (String s))
                 \<and> parse_version s = Inr ZERO_VERSION_SENTINEL))"
    by (rule read_head_version_zero_iff)
qed

theorem read_head_version_cases_witness:
  "is_bare bare_repo
   \<and> read_head_version (example_toml ''1.2.3'') bare_repo = Inl BareRepository
   \<and> \<not> is_bare empty_repo
   \<and> revparse_single empty_repo ''HEAD:pyproject.toml'' = Inl ''KeyError''
   \<and> read_head_version (example_toml ''1.2.3'') empty_repo = Inr ZERO_VERSION_SENTINEL
   \<and> revparse_single tree_repo ''HEAD:pyproject.toml'' = Inr Tree
   \<and> read_head_version (example_toml ''1.2.3'') tree_repo = Inl NotRegularFile
   \<and> project_version [(''project'', Table [(''name'', String ''asf-example'')])] = Inr None
   \<and> read_head_version toml_without_version (example_repo ''1.2.3'') = Inl VersionMissing"
proof -
  have b: "is_bare bare_repo"
    by (simp add: bare_repo_def)
  have e: "\<not> is_bare empty_repo \<and> revparse_single empty_repo ''HEAD:pyproject.toml'' = Inl ''KeyError''"
    by (simp add: empty_repo_def)
  have t: "\<not> is_bare tree_repo \<and> revparse_single tree_repo ''HEAD:pyproject.toml'' = Inr Tree
      \<and> (\<forall>data. Tree \<noteq> Blob data)"
    by (simp add: tree_repo_def)
  have p: "project_version [(''project'', Table [(''name'', String ''asf-example'')])] = Inr None"
    by (simp add: project_version_def)
  have m: "\<not> is_bare (example_repo ''1.2.3'')
      \<and> revparse_single (example_repo ''1.2.3'') ''HEAD:pyproject.toml''
          = Inr (Blob (example_manifest ''1.2.3''))
      \<and> toml_without_version (example_manifest ''1.2.3'')
          = Inr [(''project'', Table [(''name'', String ''asf-example'')])]
      \<and> project_version [(''project'', Table [(''name'', String ''asf-example'')])] = Inr None
      \<and> (\<forall>s. None \<noteq> Some (String s))"
    by (simp add: example_repo_def toml_without_version_def project_version_def)
  have "read_head_version (example_toml ''1.2.3'') bare_repo = Inl BareRepository"
    using b read_head_version_cases [of bare_repo "example_toml ''1.2.3''"] by blast
  moreover have "read_head_version (example_toml ''1.2.3'') empty_repo = Inr ZERO_VERSION_SENTINEL"
    using e read_head_version_cases [of empty_repo "example_toml ''1.2.3''" "''KeyError''"]
    by blast
  moreover have "read_head_version (example_toml ''1.2.3'') tree_repo = Inl NotRegularFile"
    using t read_head_version_cases [of tree_repo "example_toml ''1.2.3''" _ Tree] by blast
  moreover have "read_head_version toml_without_version (example_repo ''1.2.3'') = Inl VersionMissing"
    using m read_head_version_cases [of "example_repo ''1.2.3''" toml_without_version _ _
        "example_manifest ''1.2.3''" "[(''project'', Table [(''name'', String ''asf-example'')])]"
        None]
    by blast
  ultimately show ?thesis
    using b e t p by simp
qed

section \<open>The assignment line and its pattern\<close>

lemma version_pattern_unfold:
  "version_pattern =
     Seq (literal ''VERSION:'') (Seq (Star Space) (Seq (literal ''Final[str]'')
       (Seq (Star Space) (Seq (Chr CHR ''='') (Seq (Star Space) (Seq (Chr DQUOTE)
         (Seq (Star Dot) (Seq (Chr DQUOTE) (Seq (Star Space)
           (Seq (Opt (Chr LF)) Empty))))))))))"
  by (simp only: version_pattern_def seqs.simps)

lemma lang_Star_Space: "w \<in> lang (Star Space) \<longleftrightarrow> list_all is_space w"
  by (simp add: star_class list_all_iff)

lemma lang_Star_Dot: "w \<in> lang (Star Dot) \<longleftrightarrow> LF \<notin> set w"
  by (auto simp: star_class)

lemma assignment_line_in_lang:
  assumes "LF \<notin> set v"
  shows "assignment_line v \<in> lang version_pattern"
proof -
  have 1: "''VERSION:'' \<in> lang (literal ''VERSION:'')"
    and 2: "''Final[str]'' \<in> lang (literal ''Final[str]'')"
    by (simp_all only: lang_literal)
  have 3: "'' '' \<in> lang (Star Space)" and 4: "[] \<in> lang (Star Space)"
    unfolding lang_Star_Space by (simp_all add: is_space_def)
  have 5: "v \<in> lang (Star Dot)"
    using assms by (simp only: lang_Star_Dot not_False_eq_True)
  have 6: "[LF] \<in> lang (Opt (Chr LF))" and 7: "[] \<in> lang Empty"
    by simp_all
  have "''VERSION:'' @ ('' '' @ (''Final[str]'' @ ('' '' @ (CHR ''='' # ('' '' @
      (DQUOTE # (v @ (DQUOTE # ([] @ ([LF] @ [])))))))))) \<in> lang version_pattern"
    unfolding version_pattern_unfold
    by (intro lang_SeqI lang_Chr_SeqI 1 2 3 4 5 6 7)
  then show ?thesis
    by (simp add: assignment_line_def)
qed

lemma assignment_line_matches: "LF \<notin> set v \<Longrightarrow> fullmatch version_pattern (assignment_line v)"
  by (simp add: fullmatch_lang assignment_line_in_lang)

section \<open>The loop over the lines\<close>

lemma copy_lines_after_replacement:
  "(\<forall>i. \<not> read_fails e i) \<Longrightarrow> (\<forall>i. \<not> write_fails e i) \<Longrightarrow>
     copy_lines e v i True ls out = (None, out @ concat ls)"
  by (induction ls arbitrary: i out) (simp_all add: rewrite_line_def)


lemma copy_lines_first_match:
  assumes "\<forall>i. \<not> read_fails e i" "\<forall>i. \<not> write_fails e i"
    and "\<forall>l \<in> set pre. \<not> fullmatch version_pattern l" and "fullmatch version_pattern line"
  shows "copy_lines e v i False (pre @ line # post) out
    = (None, out @ concat pre @ assignment_line v @ concat post)"
  using assms(3)
proof (induction pre arbitrary: i out)
  case Nil
  show ?case
    using assms(1,2,4) by (simp add: rewrite_line_def copy_lines_after_replacement)
next
  case (Cons l pre)
  then show ?case
    using assms(1,2) by (simp add: rewrite_line_def)
qed

lemma copy_lines_fault:
  "\<exists>i. k \<le> i \<and> i < k + length ls \<and> (read_fails e i \<or> write_fails e i) \<Longrightarrow>
     \<exists>x out'. copy_lines e v k r ls out = (Some x, out')"
proof (induction ls arbitrary: k r out)
  case Nil
  then have False by auto
  then show ?case ..
next
  case (Cons l ls)
  show ?case
  proof (cases "read_fails e k \<or> write_fails e k")
    case True
    then show ?thesis by (auto simp: split_beta)
  next
    case False
    from Cons.prems obtain i where i: "k \<le> i" "i < k + length (l # ls)"
      "read_fails e i \<or> write_fails e i" by blast
    with False have "i \<noteq> k" by auto
    with i have "\<exists>i. Suc k \<le> i \<and> i < Suc k + length ls \<and> (read_fails e i \<or> write_fails e i)"
      by (intro exI [of _ i]) auto
    then have "\<exists>x out'. copy_lines e v (Suc k) (snd (rewrite_line v r l)) ls
        (out @ fst (rewrite_line v r l)) = (Some x, out')"
      by (rule Cons.IH)
    with False show ?thesis by (simp add: split_beta)
  qed
qed



section \<open>The temporary file and the target\<close>

lemma tmp_suffix_not_py: "x @ ''.tmp'' \<noteq> ''py''"
proof
  assume "x @ ''.tmp'' = ''py''"
  then have "length (x @ ''.tmp'') = length ''py''" by (rule arg_cong)
  then show False by simp
qed

lemma tmp_suffix_not_toml: "x @ ''.tmp'' \<noteq> ''toml''"
proof
  assume "x @ ''.tmp'' = ''toml''"
  then have "rev (x @ ''.tmp'') = rev ''toml''" by (rule arg_cong)
  then show False by simp
qed

lemma mkstemp_Inr:
  assumes "mkstemp e prefix suffix dir fs = (Inr tmp, fs0)"
  shows "tmp = dir @ ''/'' @ prefix @ tmp_infix e @ suffix" "fs tmp = None" "fs0 = fs(tmp \<mapsto> [])"
    "\<not> mkstemp_fails e"
  using assms by (auto simp: mkstemp_def Let_def split: if_splits)

lemma mkstemp_Inl:
  assumes "mkstemp e prefix suffix dir fs = (Inl x, fs0)"
  shows "fs0 = fs"
  using assms by (auto simp: mkstemp_def Let_def split: if_splits)

lemma init_tmp_not_target:
  "mkstemp e ''__init__.'' ''.tmp'' init_dir fs = (Inr tmp, fs0) \<Longrightarrow> tmp \<noteq> init_path"
  using mkstemp_Inr(1) [of e "''__init__.''" "''.tmp''" init_dir fs tmp fs0]
  by (simp add: init_path_def init_dir_def tmp_suffix_not_py)

lemma pyproject_tmp_not_target:
  "mkstemp e ''pyproject.'' ''.tmp'' ''.'' fs = (Inr tmp, fs0) \<Longrightarrow> tmp \<noteq> pyproject_path"
  using mkstemp_Inr(1) [of e "''pyproject.''" "''.tmp''" "''.''" fs tmp fs0]
  by (auto simp: pyproject_path_def)

lemma init_try_block_failure:
  assumes "init_try_block e v tmp fs0 = (Some x, fs1)" and "fs0 tmp \<noteq> None"
  shows "fs1 tmp \<noteq> None \<and> (\<forall>p. p \<noteq> tmp \<longrightarrow> fs1 p = fs0 p)"
  using assms
  by (auto simp: init_try_block_def os_replace_def
      split: if_splits option.splits prod.splits)

lemma replace_key_in_section_error:
  assumes "replace_key_in_section toml_parse toml_dumps content section key val = Inl err"
  shows "\<exists>exc. err = Uncaught exc"
proof (cases "toml_parse content")
  case (Inl x)
  with assms show ?thesis by (auto simp: replace_key_in_section_def)
next
  case (Inr doc)
  obtain doc' where "set_in_section (split_on CHR ''.'' section) key val doc = Inr doc'"
    using set_in_section_total by blast
  with Inr assms show ?thesis
    by (simp add: replace_key_in_section_def replace_key_in_doc_def)
qed

lemma pyproject_try_block_failure:
  assumes "pyproject_try_block toml_parse toml_dumps now e v tmp fs0 = (Some err, fs1)"
    and "fs0 tmp \<noteq> None"
  shows "(\<exists>exc. err = Uncaught exc) \<and> fs1 tmp \<noteq> None \<and> (\<forall>p. p \<noteq> tmp \<longrightarrow> fs1 p = fs0 p)"
proof -
  have "\<exists>exc. err = Uncaught exc"
    using assms(1)
    by (auto simp: pyproject_try_block_def os_replace_def
        split: if_splits option.splits prod.splits sum.splits
        dest: replace_key_in_section_error)
  moreover have "fs1 tmp \<noteq> None \<and> (\<forall>p. p \<noteq> tmp \<longrightarrow> fs1 p = fs0 p)"
    using assms
    by (auto simp: pyproject_try_block_def os_replace_def
        split: if_splits option.splits prod.splits sum.splits)
  ultimately show ?thesis by blast
qed

lemma removed_tmp_restores:
  assumes "fs tmp = None" "fs1 tmp \<noteq> None" "\<forall>p. p \<noteq> tmp \<longrightarrow> fs1 p = (fs(tmp \<mapsto> c)) p"
  shows "snd (os_remove e tmp fs1) = (if remove_fails e then fs1 else fs)"
  using assms by (auto simp: os_remove_def fun_eq_iff)

lemma init_try_block_fault:
  assumes "open_fails e \<or> fs init_path = None
      \<or> (\<exists>content i. fs init_path = Some content \<and> i < length (readlines content)
            \<and> (read_fails e i \<or> write_fails e i))
      \<or> close_fails e \<or> replace_fails e"
  shows "\<exists>x fs1. init_try_block e v tmp fs = (Some x, fs1)"
proof (cases "open_fails e \<or> fs init_path = None")
  case True
  then show ?thesis by (auto simp: init_try_block_def)
next
  case False
  then obtain content where c: "\<not> open_fails e" "fs init_path = Some content" by auto
  show ?thesis
  proof (cases "copy_lines e v 0 False (readlines content) []")
    case (Pair res out)
    show ?thesis
    proof (cases res)
      case (Some x)
      with Pair c show ?thesis by (simp add: init_try_block_def)
    next
      case None
      have "\<not> (\<exists>i. 0 \<le> i \<and> i < 0 + length (readlines content)
          \<and> (read_fails e i \<or> write_fails e i))"
        using copy_lines_fault [of 0 "readlines content" e v False "[]"] Pair None by auto
      with assms c have "close_fails e \<or> replace_fails e" by auto
      with Pair None c show ?thesis
        by (auto simp: init_try_block_def os_replace_def)
    qed
  qed
qed

lemma pyproject_try_block_fault:
  assumes "open_fails e \<or> fs pyproject_path = None \<or> read_fails e 0
      \<or> (\<exists>content x. fs pyproject_path = Some content \<and> toml_parse content = Inl x)
      \<or> write_fails e 0 \<or> close_fails e \<or> replace_fails e"
  shows "\<exists>err fs1. pyproject_try_block toml_parse toml_dumps now e v tmp fs = (Some err, fs1)"
  using assms
  by (auto simp: pyproject_try_block_def os_replace_def replace_key_in_section_def
      split: option.splits sum.splits)

section \<open>The claims about the update of a file\<close>

lemma update_init_version_success:
  assumes "no_io_faults e"
    and "mkstemp e ''__init__.'' ''.tmp'' init_dir fs = (Inr tmp, fs0)"
    and "fs init_path = Some content"
    and "copy_lines e v 0 False (readlines content) [] = (None, out)"
  shows "update_init_version e v fs = (Inr (), fs(init_path \<mapsto> out))"
proof -
  have t: "fs tmp = None" "fs0 = fs(tmp \<mapsto> [])"
    using mkstemp_Inr [OF assms(2)] by simp_all
  have n: "tmp \<noteq> init_path"
    using assms(2) by (rule init_tmp_not_target)
  have f: "\<not> open_fails e" "\<not> close_fails e" "\<not> replace_fails e"
    using assms(1) by (simp_all add: no_io_faults_def)
  have "((fs0(tmp \<mapsto> out))(init_path \<mapsto> out))(tmp := None) = fs(init_path \<mapsto> out)"
    using t n by (auto simp: fun_eq_iff)
  then have "init_try_block e v tmp fs0 = (None, fs(init_path \<mapsto> out))"
    using t n f assms(3,4) by (simp add: init_try_block_def os_replace_def)
  then show ?thesis
    using assms(2) by (simp add: update_init_version_def)
qed


lemmas eval_fs = example_env_def example_init_def example_fs_def init_path_def init_dir_def
  pyproject_path_def mkstemp_def Let_def

lemmas eval_pattern = fullmatch_def version_pattern_def is_space_def LF_def CR_def DQUOTE_def


text \<open>
  Claim C2. For each of the two files: once the temporary file exists, a failure
  anywhere in the \<^verbatim>\<open>try\<close> block (opening, reading, transforming, writing, closing, or
  the rename) ends the update with the report for that file. The target then holds what
  it held before the call, no other path but the temporary one has changed, and the
  temporary file is gone unless removing it failed; a failed removal changes nothing
  in the report. Every failing system call and every text that is no document is such
  a failure of the block.
\<close>

theorem failed_update_keeps_target:
  "(mkstemp e ''__init__.'' ''.tmp'' init_dir fs = (Inr tmp, fs0)
      \<and> init_try_block e v tmp fs0 = (Some x, fs1) \<longrightarrow>
      (\<exists>fs'. update_init_version e v fs = (Inl InitUpdateFailed, fs')
         \<and> fs' init_path = fs init_path
         \<and> (\<forall>p. p \<noteq> tmp \<longrightarrow> fs' p = fs p)
         \<and> (\<not> remove_fails e \<longrightarrow> fs' tmp = None)))
   \<and> (mkstemp e ''pyproject.'' ''.tmp'' ''.'' fs = (Inr tmp, fs0)
      \<and> pyproject_try_block toml_parse toml_dumps now e v tmp fs0 = (Some err, fs1) \<longrightarrow>
      (\<exists>exc fs'. err = Uncaught exc
         \<and> update_pyproject_version toml_parse toml_dumps now e v fs
              = (Inl (PyprojectUpdateFailed exc), fs')
         \<and> fs' pyproject_path = fs pyproject_path
         \<and> (\<forall>p. p \<noteq> tmp \<longrightarrow> fs' p = fs p)
         \<and> (\<not> remove_fails e \<longrightarrow> fs' tmp = None)))
   \<and> (open_fails e \<or> fs0 init_path = None
        \<or> (\<exists>content i. fs0 init_path = Some content \<and> i < length (readlines content)
              \<and> (read_fails e i \<or> write_fails e i))
        \<or> close_fails e \<or> replace_fails e \<longrightarrow>
      (\<exists>x fs1. init_try_block e v tmp fs0 = (Some x, fs1)))
   \<and> (open_fails e \<or> fs0 pyproject_path = None \<or> read_fails e 0
        \<or> (\<exists>content x. fs0 pyproject_path = Some content \<and> toml_parse content = Inl x)
        \<or> write_fails e 0 \<or> close_fails e \<or> replace_fails e \<longrightarrow>
      (\<exists>err fs1. pyproject_try_block toml_parse toml_dumps now e v tmp fs0 = (Some err, fs1)))"
proof (intro conjI impI)
  assume a: "mkstemp e ''__init__.'' ''.tmp'' init_dir fs = (Inr tmp, fs0)
      \<and> init_try_block e v tmp fs0 = (Some x, fs1)"
  then have m: "mkstemp e ''__init__.'' ''.tmp'' init_dir fs = (Inr tmp, fs0)"
    and b: "init_try_block e v tmp fs0 = (Some x, fs1)" by simp_all
  have t: "fs tmp = None" "fs0 = fs(tmp \<mapsto> [])"
    using mkstemp_Inr [OF m] by simp_all
  have n: "tmp \<noteq> init_path"
    using m by (rule init_tmp_not_target)
  have f: "fs1 tmp \<noteq> None \<and> (\<forall>p. p \<noteq> tmp \<longrightarrow> fs1 p = fs0 p)"
    using init_try_block_failure [OF b] t(2) by simp
  have r: "snd (os_remove e tmp fs1) = (if remove_fails e then fs1 else fs)"
    using removed_tmp_restores [of fs tmp fs1 "[]" e] t f by simp
  have u: "update_init_version e v fs
      = (Inl InitUpdateFailed, if remove_fails e then fs1 else fs)"
    using m b r by (simp add: update_init_version_def)
  show "\<exists>fs'. update_init_version e v fs = (Inl InitUpdateFailed, fs')
         \<and> fs' init_path = fs init_path
         \<and> (\<forall>p. p \<noteq> tmp \<longrightarrow> fs' p = fs p)
         \<and> (\<not> remove_fails e \<longrightarrow> fs' tmp = None)"
    using u f t n by (intro exI [of _ "if remove_fails e then fs1 else fs"]) auto
next
  assume a: "mkstemp e ''pyproject.'' ''.tmp'' ''.'' fs = (Inr tmp, fs0)
      \<and> pyproject_try_block toml_parse toml_dumps now e v tmp fs0 = (Some err, fs1)"
  then have m: "mkstemp e ''pyproject.'' ''.tmp'' ''.'' fs = (Inr tmp, fs0)"
    and b: "pyproject_try_block toml_parse toml_dumps now e v tmp fs0 = (Some err, fs1)"
    by simp_all
  have t: "fs tmp = None" "fs0 = fs(tmp \<mapsto> [])"
    using mkstemp_Inr [OF m] by simp_all
  have n: "tmp \<noteq> pyproject_path"
    using m by (rule pyproject_tmp_not_target)
  have "(\<exists>exc. err = Uncaught exc) \<and> fs1 tmp \<noteq> None \<and> (\<forall>p. p \<noteq> tmp \<longrightarrow> fs1 p = fs0 p)"
    using pyproject_try_block_failure [OF b] t(2) by simp
  then obtain exc where x: "err = Uncaught exc"
    and f: "fs1 tmp \<noteq> None \<and> (\<forall>p. p \<noteq> tmp \<longrightarrow> fs1 p = fs0 p)" by blast
  have r: "snd (os_remove e tmp fs1) = (if remove_fails e then fs1 else fs)"
    using removed_tmp_restores [of fs tmp fs1 "[]" e] t f by simp
  have u: "update_pyproject_version toml_parse toml_dumps now e v fs
      = (Inl (PyprojectUpdateFailed exc), if remove_fails e then fs1 else fs)"
    using m b r x by (simp add: update_pyproject_version_def)
  show "\<exists>exc fs'. err = Uncaught exc
         \<and> update_pyproject_version toml_parse toml_dumps now e v fs
              = (Inl (PyprojectUpdateFailed exc), fs')
         \<and> fs' pyproject_path = fs pyproject_path
         \<and> (\<forall>p. p \<noteq> tmp \<longrightarrow> fs' p = fs p)
         \<and> (\<not> remove_fails e \<longrightarrow> fs' tmp = None)"
    using u x f t n
    by (intro exI [of _ exc] exI [of _ "if remove_fails e then fs1 else fs"]) auto
next
  assume "open_fails e \<or> fs0 init_path = None
        \<or> (\<exists>content i. fs0 init_path = Some content \<and> i < length (readlines content)
              \<and> (read_fails e i \<or> write_fails e i))
        \<or> close_fails e \<or> replace_fails e"
  then show "\<exists>x fs1. init_try_block e v tmp fs0 = (Some x, fs1)"
    by (rule init_try_block_fault)
next
  assume "open_fails e \<or> fs0 pyproject_path = None \<or> read_fails e 0
        \<or> (\<exists>content x. fs0 pyproject_path = Some content \<and> toml_parse content = Inl x)
        \<or> write_fails e 0 \<or> close_fails e \<or> replace_fails e"
  then show "\<exists>err fs1. pyproject_try_block toml_parse toml_dumps now e v tmp fs0 = (Some err, fs1)"
    by (rule pyproject_try_block_fault)
qed

theorem failed_update_keeps_target_witness:
  "fst (update_init_version write_fault_env ''0.2'' example_fs) = Inl InitUpdateFailed
   \<and> snd (update_init_version write_fault_env ''0.2'' example_fs) init_path = Some example_init
   \<and> snd (update_init_version write_fault_env ''0.2'' example_fs)
        ''src/asf/example/__init__.k3x9.tmp'' = None
   \<and> fst (update_pyproject_version (example_toml ''0.1'') example_dumps ''2026-01-01T00:00:00Z''
        remove_fault_env ''0.2'' example_fs) = Inl (PyprojectUpdateFailed ''ParseError'')
   \<and> snd (update_pyproject_version (example_toml ''0.1'') example_dumps ''2026-01-01T00:00:00Z''
        remove_fault_env ''0.2'' example_fs) pyproject_path = Some ''not a document''"
proof -
  let ?tmp = "''src/asf/example/__init__.k3x9.tmp''"
  let ?fs0 = "example_fs(?tmp \<mapsto> [])"
  have m: "mkstemp write_fault_env ''__init__.'' ''.tmp'' init_dir example_fs = (Inr ?tmp, ?fs0)"
    by (simp add: eval_fs write_fault_env_def)
  have b: "init_try_block write_fault_env ''0.2'' ?tmp ?fs0
      = (Some ''OSError'', ?fs0(?tmp \<mapsto> ''PROJECT = 1'' @ [LF]))"
    by (simp add: init_try_block_def write_fault_env_def eval_fs readlines_def rewrite_line_def
        eval_pattern)
  note T = failed_update_keeps_target [where e = write_fault_env and fs = example_fs
      and tmp = ?tmp and ?fs0.0 = ?fs0 and v = "''0.2''", THEN conjunct1, THEN mp,
      OF conjI [OF m b]]
  from T obtain fs' where u: "update_init_version write_fault_env ''0.2'' example_fs
      = (Inl InitUpdateFailed, fs')"
    and k: "fs' init_path = example_fs init_path"
    and g: "\<not> remove_fails write_fault_env \<longrightarrow> fs' ?tmp = None"
    by (elim exE conjE)
  have 1: "fst (update_init_version write_fault_env ''0.2'' example_fs) = Inl InitUpdateFailed"
    "snd (update_init_version write_fault_env ''0.2'' example_fs) init_path = Some example_init"
    "snd (update_init_version write_fault_env ''0.2'' example_fs) ?tmp = None"
    using u k g by (simp_all add: eval_fs write_fault_env_def)
  let ?tmp' = "''./pyproject.k3x9.tmp''"
  let ?fs0' = "example_fs(?tmp' \<mapsto> [])"
  let ?up = "update_pyproject_version (example_toml ''0.1'') example_dumps ''2026-01-01T00:00:00Z''
        remove_fault_env ''0.2'' example_fs"
  have m': "mkstemp remove_fault_env ''pyproject.'' ''.tmp'' ''.'' example_fs = (Inr ?tmp', ?fs0')"
    by (simp add: eval_fs remove_fault_env_def)
  have b': "pyproject_try_block (example_toml ''0.1'') example_dumps ''2026-01-01T00:00:00Z''
      remove_fault_env ''0.2'' ?tmp' ?fs0' = (Some (Uncaught ''ParseError''), ?fs0')"
    by (simp add: pyproject_try_block_def remove_fault_env_def eval_fs
        replace_key_in_section_def example_toml_def example_manifest_def LF_def DQUOTE_def)
  note T' = failed_update_keeps_target [where e = remove_fault_env and fs = example_fs
      and tmp = ?tmp' and ?fs0.0 = ?fs0' and v = "''0.2''"
      and toml_parse = "example_toml ''0.1''" and toml_dumps = example_dumps
      and now = "''2026-01-01T00:00:00Z''", THEN conjunct2, THEN conjunct1, THEN mp,
      OF conjI [OF m' b']]
  from T' obtain exc fs'' where x: "Uncaught ''ParseError'' = Uncaught exc"
    and u': "?up = (Inl (PyprojectUpdateFailed exc), fs'')"
    and k': "fs'' pyproject_path = example_fs pyproject_path"
    by (elim exE conjE)
  have 2: "fst ?up = Inl (PyprojectUpdateFailed ''ParseError'')"
    "snd ?up pyproject_path = Some ''not a document''"
    using x u' k' by (simp_all add: eval_fs)
  show ?thesis
    using 1 2 by simp
qed

section \<open>Reading back what was written\<close>

lemma LF_not_CR [simp]: "LF \<noteq> CR" "CR \<noteq> LF"
  by (simp_all add: LF_def CR_def)

lemma is_break_simps [simp]: "is_break LF" "is_break CR"
  by (simp_all add: is_break_def)

lemma readlines_from_body:
  "\<forall>c \<in> set b. \<not> is_break c \<Longrightarrow> readlines_from cur (b @ r) = readlines_from (cur @ b) r"
  by (induction b arbitrary: cur) (simp_all add: is_break_def)

lemma ending_body: "\<forall>c \<in> set b. \<not> is_break c \<Longrightarrow> ending (b @ r) = ending r"
  by (induction b) (simp_all add: ending_def)

lemma ending_break [simp]: "is_break c \<Longrightarrow> ending (c # r) = c # r"
  by (simp add: ending_def)

lemma ending_Nil [simp]: "ending [] = []"
  by (simp add: ending_def)

lemma line_split:
  "l = takeWhile (\<lambda>c. \<not> is_break c) l @ ending l"
  "\<forall>c \<in> set (takeWhile (\<lambda>c. \<not> is_break c) l). \<not> is_break c"
  by (auto simp: ending_def dest: set_takeWhileD)

lemma file_lines_hd_nonempty: "file_lines (l # ls) \<Longrightarrow> l \<noteq> []"
  by (cases ls) auto

lemma file_lines_Cons:
  assumes "file_lines rest"
    and "ending l = [LF] \<or> ending l = [CR, LF]
      \<or> (ending l = [CR] \<and> (rest = [] \<or> hd (hd rest) \<noteq> LF))"
  shows "file_lines (l # rest)"
proof (cases rest)
  case Nil
  with assms(2) show ?thesis by auto
next
  case (Cons l' ls)
  with assms show ?thesis by auto
qed

lemma hd_readlines_from:
  "readlines_from cur s = l # ls \<Longrightarrow> hd l = hd (cur @ s)"
proof (induction cur s arbitrary: l ls rule: readlines_from.induct)
  case (1 cur)
  then show ?case by (simp split: if_splits)
next
  case step: (2 cur c cs)
  consider "c = LF" | "c = CR" "cs = []"
    | d ds where "c = CR" "cs = d # ds" "d = LF"
    | d ds where "c = CR" "cs = d # ds" "d \<noteq> LF"
    | "c \<noteq> LF" "c \<noteq> CR"
    by (cases cs) auto
  then show ?case
  proof cases
    case 1
    with step.prems have "l = cur @ [LF]" by simp
    with 1 show ?thesis by (simp add: hd_append)
  next
    case 2
    with step.prems have "l = cur @ [CR]" by simp
    with 2 show ?thesis by (simp add: hd_append)
  next
    case 3
    with step.prems have "l = cur @ [CR, LF]" by simp
    with 3 show ?thesis by (simp add: hd_append)
  next
    case 4
    with step.prems have "l = cur @ [CR]" by simp
    with 4 show ?thesis by (simp add: hd_append)
  next
    case 5
    with step.prems have "readlines_from (cur @ [c]) cs = l # ls" by simp
    with 5 have "hd l = hd ((cur @ [c]) @ cs)" by (intro step.IH)
    then show ?thesis by (simp add: hd_append)
  qed
qed

lemma file_lines_readlines_from:
  "\<forall>c \<in> set cur. \<not> is_break c \<Longrightarrow> file_lines (readlines_from cur s)"
proof (induction cur s rule: readlines_from.induct)
  case (1 cur)
  then show ?case
    using ending_body [of cur "[]"] by simp
next
  case step: (2 cur c cs)
  have e: "\<And>r. ending (cur @ r) = ending r"
    using step.prems by (rule ending_body)
  show ?case
  proof (cases "c = LF")
    case True
    with step have "file_lines (readlines_from [] cs)" by simp
    then have "file_lines ((cur @ [LF]) # readlines_from [] cs)"
      by (rule file_lines_Cons) (simp add: e)
    with True show ?thesis by simp
  next
    case False
    show ?thesis
    proof (cases "c = CR")
      case True
      show ?thesis
      proof (cases cs)
        case Nil
        with True show ?thesis by (simp add: e)
      next
        case (Cons d ds)
        show ?thesis
        proof (cases "d = LF")
          case dLF: True
          with step False True Cons have "file_lines (readlines_from [] ds)" by simp
          then have "file_lines ((cur @ [CR, LF]) # readlines_from [] ds)"
            by (rule file_lines_Cons) (simp add: e)
          with True Cons dLF show ?thesis by simp
        next
          case dn: False
          with step False True Cons have f: "file_lines (readlines_from [] cs)" by simp
          have "readlines_from [] cs = [] \<or> hd (hd (readlines_from [] cs)) \<noteq> LF"
          proof (cases "readlines_from [] cs")
            case Nil
            then show ?thesis by simp
          next
            case (Cons x xs)
            then have "hd x = hd ([] @ cs)" by (rule hd_readlines_from)
            with Cons \<open>cs = d # ds\<close> dn show ?thesis by simp
          qed
          with f have "file_lines ((cur @ [CR]) # readlines_from [] cs)"
            by (intro file_lines_Cons) (simp_all add: e)
          with True Cons dn show ?thesis by simp
        qed
      qed
    next
      case nCR: False
      with False step show ?thesis by (simp add: is_break_def)
    qed
  qed
qed

lemma file_lines_readlines: "file_lines (readlines content)"
  by (simp add: readlines_def file_lines_readlines_from)

lemma readlines_from_line:
  "readlines_from [] (l @ rest) =
     readlines_from (takeWhile (\<lambda>c. \<not> is_break c) l) (ending l @ rest)"
proof -
  have "readlines_from [] (takeWhile (\<lambda>c. \<not> is_break c) l @ (ending l @ rest))
      = readlines_from ([] @ takeWhile (\<lambda>c. \<not> is_break c) l) (ending l @ rest)"
    using line_split(2) by (rule readlines_from_body)
  then show ?thesis
    using line_split(1) [of l] by (metis append_Nil append_assoc)
qed

lemma readlines_file_lines: "file_lines ls \<Longrightarrow> readlines_from [] (concat ls) = ls"
proof (induction ls rule: file_lines.induct)
  case 1
  show ?case by simp
next
  case single: (2 l)
  let ?b = "takeWhile (\<lambda>c. \<not> is_break c) l"
  have l: "?b @ ending l = l" using line_split(1) [of l] by simp
  from single have ne: "l \<noteq> []"
    and c: "ending l = [] \<or> ending l = [LF] \<or> ending l = [CR] \<or> ending l = [CR, LF]"
    by simp_all
  have "readlines_from ?b (ending l) = [?b @ ending l]"
  proof -
    { assume e: "ending l = []"
      from l have "?b @ [] = l" by (simp only: e)
      with ne have "?b \<noteq> []" by (metis append_Nil)
      with e have ?thesis by simp }
    moreover
    { assume e: "ending l = [LF]"
      then have ?thesis by simp }
    moreover
    { assume e: "ending l = [CR]"
      then have ?thesis by simp }
    moreover
    { assume e: "ending l = [CR, LF]"
      then have ?thesis by simp }
    ultimately show ?thesis using c by blast
  qed
  then have "readlines_from ?b (ending l) = [l]"
    by (simp only: l)
  then show ?case
    using readlines_from_line [of l "[]"] by simp
next
  case more: (3 l l' ls)
  let ?b = "takeWhile (\<lambda>c. \<not> is_break c) l"
  let ?rest = "concat (l' # ls)"
  have l: "?b @ ending l = l" using line_split(1) [of l] by simp
  from more have IH: "readlines_from [] ?rest = l' # ls" by simp
  have l': "l' \<noteq> []"
    using more.prems file_lines_hd_nonempty [of l' ls] by simp
  then obtain d ds where r: "?rest = d # ds" "d = hd l'"
    by (cases l') auto
  have c: "ending l = [LF] \<or> ending l = [CR, LF] \<or> (ending l = [CR] \<and> hd l' \<noteq> LF)"
    using more.prems by simp
  have "readlines_from ?b (ending l @ ?rest) = (?b @ ending l) # l' # ls"
  proof -
    { assume e: "ending l = [LF]"
      then have "readlines_from ?b (ending l @ ?rest) = (?b @ [LF]) # readlines_from [] ?rest"
        by simp
      with e IH have ?thesis by simp }
    moreover
    { assume e: "ending l = [CR, LF]"
      then have "readlines_from ?b (ending l @ ?rest) = (?b @ [CR, LF]) # readlines_from [] ?rest"
        by simp
      with e IH have ?thesis by simp }
    moreover
    { assume e: "ending l = [CR]" and h: "hd l' \<noteq> LF"
      have "readlines_from ?b ([CR] @ (d # ds)) = (?b @ [CR]) # readlines_from [] (d # ds)"
        using h r(2) by simp
      with e IH r(1) have ?thesis by simp }
    ultimately show ?thesis using c by blast
  qed
  then have "readlines_from ?b (ending l @ ?rest) = l # l' # ls"
    by (simp only: l)
  then show ?case
    using readlines_from_line [of l ?rest] by simp
qed

lemma file_lines_replace:
  assumes "ending a = [LF]" "hd a \<noteq> LF"
  shows "file_lines (pre @ l # post) \<Longrightarrow> file_lines (pre @ a # post)"
proof (induction pre)
  case Nil
  then show ?case
    using assms by (cases post) auto
next
  case (Cons p pre)
  show ?case
  proof (cases pre)
    case Nil
    with Cons assms show ?thesis by auto
  next
    case (Cons q qs)
    with Cons.IH Cons.prems show ?thesis by auto
  qed
qed

lemma assignment_line_ending:
  assumes "LF \<notin> set v" "CR \<notin> set v"
  shows "ending (assignment_line v) = [LF]" "hd (assignment_line v) \<noteq> LF"
proof -
  have "\<forall>c \<in> set (''VERSION: Final[str] = '' @ [DQUOTE] @ v @ [DQUOTE]). \<not> is_break c"
    using assms by (auto simp: is_break_def LF_def CR_def DQUOTE_def)
  then have "ending ((''VERSION: Final[str] = '' @ [DQUOTE] @ v @ [DQUOTE]) @ [LF]) = ending [LF]"
    by (rule ending_body)
  then show "ending (assignment_line v) = [LF]"
    by (simp add: assignment_line_def)
  show "hd (assignment_line v) \<noteq> LF"
    by (simp add: assignment_line_def LF_def)
qed

lemma readlines_after_replacement:
  assumes "readlines content = pre @ line # post" "LF \<notin> set v" "CR \<notin> set v"
  shows "readlines (concat pre @ assignment_line v @ concat post) = pre @ assignment_line v # post"
proof -
  have "file_lines (pre @ line # post)"
    using file_lines_readlines [of content] assms(1) by simp
  with assignment_line_ending [OF assms(2,3)]
  have "file_lines (pre @ assignment_line v # post)"
    by (rule file_lines_replace)
  then have "readlines_from [] (concat (pre @ assignment_line v # post))
      = pre @ assignment_line v # post"
    by (rule readlines_file_lines)
  then show ?thesis
    by (simp add: readlines_def)
qed

section \<open>The claim about the written assignment line\<close>

lemma update_init_version_first_match:
  assumes "no_io_faults e"
    and "mkstemp e ''__init__.'' ''.tmp'' init_dir fs = (Inr tmp, fs0)"
    and "fs init_path = Some content"
    and "readlines content = pre @ line # post"
    and "\<forall>l \<in> set pre. \<not> fullmatch version_pattern l"
    and "fullmatch version_pattern line"
  shows "update_init_version e v fs
    = (Inr (), fs(init_path \<mapsto> concat pre @ assignment_line v @ concat post))"
proof -
  have rw: "\<forall>i. \<not> read_fails e i" "\<forall>i. \<not> write_fails e i"
    using assms(1) by (simp_all add: no_io_faults_def)
  have "copy_lines e v 0 False (readlines content) []
      = (None, concat pre @ assignment_line v @ concat post)"
    using copy_lines_first_match [OF rw assms(5,6), of v 0 post "[]"] assms(4) by simp
  with assms(1-3) show ?thesis
    by (rule update_init_version_success)
qed

text \<open>
  Claim C10 as stated fails: a version text with a line feed in it has no double quote,
  and the line written for it does not match the pattern.
\<close>

theorem assignment_line_line_feed_counterexample:
  "DQUOTE \<notin> set [CHR ''1'', LF, CHR ''2'']
   \<and> \<not> fullmatch version_pattern (assignment_line [CHR ''1'', LF, CHR ''2''])"
  by (simp add: assignment_line_def eval_pattern)

text \<open>
  Claim C10, amended. The assignment line written for a version text matches the search
  pattern whenever the text has no line feed in it (a double quote in it does no harm).
  When the text has no carriage return either, the line is read back as one line: after
  an update that replaced a line, the next update finds the written line at the same
  place, replaces it again and leaves every other line as it was.
\<close>

theorem assignment_line_is_found_again:
  "(LF \<notin> set v \<longrightarrow> fullmatch version_pattern (assignment_line v))
   \<and> (LF \<notin> set v \<and> CR \<notin> set v
        \<and> no_io_faults e \<and> no_io_faults e'
        \<and> fs init_path = Some content
        \<and> readlines content = pre @ line # post
        \<and> (\<forall>l \<in> set pre. \<not> fullmatch version_pattern l) \<and> fullmatch version_pattern line
        \<and> mkstemp e ''__init__.'' ''.tmp'' init_dir fs = (Inr tmp, fs0)
        \<and> update_init_version e v fs = (Inr (), fs1)
        \<and> mkstemp e' ''__init__.'' ''.tmp'' init_dir fs1 = (Inr tmp', fs0')
      \<longrightarrow>
        fs1 init_path = Some (concat pre @ assignment_line v @ concat post)
        \<and> readlines (concat pre @ assignment_line v @ concat post)
            = pre @ assignment_line v # post
        \<and> update_init_version e' v' fs1
            = (Inr (), fs(init_path \<mapsto> concat pre @ assignment_line v' @ concat post)))"
proof (intro conjI impI)
  assume "LF \<notin> set v"
  then show "fullmatch version_pattern (assignment_line v)"
    by (rule assignment_line_matches)
next
  assume a: "LF \<notin> set v \<and> CR \<notin> set v
        \<and> no_io_faults e \<and> no_io_faults e'
        \<and> fs init_path = Some content
        \<and> readlines content = pre @ line # post
        \<and> (\<forall>l \<in> set pre. \<not> fullmatch version_pattern l) \<and> fullmatch version_pattern line
        \<and> mkstemp e ''__init__.'' ''.tmp'' init_dir fs = (Inr tmp, fs0)
        \<and> update_init_version e v fs = (Inr (), fs1)
        \<and> mkstemp e' ''__init__.'' ''.tmp'' init_dir fs1 = (Inr tmp', fs0')"
  let ?c1 = "concat pre @ assignment_line v @ concat post"
  from a have v: "LF \<notin> set v" "CR \<notin> set v" and e: "no_io_faults e" and e': "no_io_faults e'"
    and c: "fs init_path = Some content" and r: "readlines content = pre @ line # post"
    and p: "\<forall>l \<in> set pre. \<not> fullmatch version_pattern l"
    and l: "fullmatch version_pattern line"
    and m: "mkstemp e ''__init__.'' ''.tmp'' init_dir fs = (Inr tmp, fs0)"
    and u: "update_init_version e v fs = (Inr (), fs1)"
    and m': "mkstemp e' ''__init__.'' ''.tmp'' init_dir fs1 = (Inr tmp', fs0')"
    by simp_all
  have "update_init_version e v fs = (Inr (), fs(init_path \<mapsto> ?c1))"
    using e m c r p l by (rule update_init_version_first_match)
  with u have fs1: "fs1 = fs(init_path \<mapsto> ?c1)" by simp
  then have c1: "fs1 init_path = Some ?c1" by simp
  have r1: "readlines ?c1 = pre @ assignment_line v # post"
    using r v by (rule readlines_after_replacement)
  have l1: "fullmatch version_pattern (assignment_line v)"
    using v(1) by (rule assignment_line_matches)
  have "update_init_version e' v' fs1
      = (Inr (), fs1(init_path \<mapsto> concat pre @ assignment_line v' @ concat post))"
    using e' m' c1 r1 p l1 by (rule update_init_version_first_match)
  then have u': "update_init_version e' v' fs1
      = (Inr (), fs(init_path \<mapsto> concat pre @ assignment_line v' @ concat post))"
    by (simp add: fs1)
  show "fs1 init_path = Some ?c1" by (rule c1)
  show "readlines ?c1 = pre @ assignment_line v # post" by (rule r1)
  show "update_init_version e' v' fs1
      = (Inr (), fs(init_path \<mapsto> concat pre @ assignment_line v' @ concat post))"
    by (rule u')
qed

theorem assignment_line_is_found_again_witness:
  "LF \<notin> set ''0.2'' \<and> CR \<notin> set ''0.2''
   \<and> fullmatch version_pattern (assignment_line ''0.2'')
   \<and> update_init_version example_env ''0.2'' example_fs
       = (Inr (),
          example_fs(init_path \<mapsto>
            ''PROJECT = 1'' @ [LF]
            @ ''VERSION: Final[str] = '' @ [DQUOTE] @ ''0.2'' @ [DQUOTE] @ [LF]
            @ ''VERSION:Final[str]='' @ [DQUOTE] @ ''old'' @ [DQUOTE] @ [LF]))
   \<and> update_init_version example_env ''0.3''
        (example_fs(init_path \<mapsto>
            ''PROJECT = 1'' @ [LF]
            @ ''VERSION: Final[str] = '' @ [DQUOTE] @ ''0.2'' @ [DQUOTE] @ [LF]
            @ ''VERSION:Final[str]='' @ [DQUOTE] @ ''old'' @ [DQUOTE] @ [LF]))
       = (Inr (),
          example_fs(init_path \<mapsto>
            ''PROJECT = 1'' @ [LF]
            @ ''VERSION: Final[str] = '' @ [DQUOTE] @ ''0.3'' @ [DQUOTE] @ [LF]
            @ ''VERSION:Final[str]='' @ [DQUOTE] @ ''old'' @ [DQUOTE] @ [LF]))"
proof -
  let ?pre = "[''PROJECT = 1'' @ [LF]]"
  let ?line = "''VERSION: Final[str] = '' @ [DQUOTE] @ ''0.1'' @ [DQUOTE] @ [LF]"
  let ?post = "[''VERSION:Final[str]='' @ [DQUOTE] @ ''old'' @ [DQUOTE] @ [LF]]"
  let ?tmp = "''src/asf/example/__init__.k3x9.tmp''"
  let ?fs1 = "example_fs(init_path \<mapsto> concat ?pre @ assignment_line ''0.2'' @ concat ?post)"
  have v: "LF \<notin> set ''0.2'' \<and> CR \<notin> set ''0.2''"
    by (simp add: LF_def CR_def)
  have e: "no_io_faults example_env"
    by (simp add: no_io_faults_def example_env_def)
  have m: "mkstemp example_env ''__init__.'' ''.tmp'' init_dir example_fs
      = (Inr ?tmp, example_fs(?tmp \<mapsto> []))"
    by (simp add: eval_fs)
  have m': "mkstemp example_env ''__init__.'' ''.tmp'' init_dir ?fs1 = (Inr ?tmp, ?fs1(?tmp \<mapsto> []))"
    by (simp add: eval_fs)
  have c: "example_fs init_path = Some example_init"
    by (simp add: eval_fs)
  have r: "readlines example_init = ?pre @ ?line # ?post"
    by (simp add: readlines_def example_init_def LF_def CR_def DQUOTE_def)
  have p: "\<forall>l \<in> set ?pre. \<not> fullmatch version_pattern l"
    by (simp add: eval_pattern)
  have l: "fullmatch version_pattern ?line"
    by (simp add: eval_pattern)
  have u: "update_init_version example_env ''0.2'' example_fs = (Inr (), ?fs1)"
    using e m c r p l by (rule update_init_version_first_match)
  note T = assignment_line_is_found_again [where v = "''0.2''" and e = example_env
      and e' = example_env and fs = example_fs and content = example_init and pre = ?pre
      and line = ?line and post = ?post and tmp = ?tmp and ?fs0.0 = "example_fs(?tmp \<mapsto> [])"
      and ?fs1.0 = ?fs1 and tmp' = ?tmp and fs0' = "?fs1(?tmp \<mapsto> [])" and v' = "''0.3''"]
  have 1: "fullmatch version_pattern (assignment_line ''0.2'')"
    using T [THEN conjunct1] v by simp
  have h: "LF \<notin> set ''0.2'' \<and> CR \<notin> set ''0.2''
        \<and> no_io_faults example_env \<and> no_io_faults example_env
        \<and> example_fs init_path = Some example_init
        \<and> readlines example_init = ?pre @ ?line # ?post
        \<and> (\<forall>l \<in> set ?pre. \<not> fullmatch version_pattern l) \<and> fullmatch version_pattern ?line
        \<and> mkstemp example_env ''__init__.'' ''.tmp'' init_dir example_fs
            = (Inr ?tmp, example_fs(?tmp \<mapsto> []))
        \<and> update_init_version example_env ''0.2'' example_fs = (Inr (), ?fs1)
        \<and> mkstemp example_env ''__init__.'' ''.tmp'' init_dir ?fs1 = (Inr ?tmp, ?fs1(?tmp \<mapsto> []))"
    using v e c r p l m u m' by (intro conjI) simp_all
  have 2: "update_init_version example_env ''0.3'' ?fs1
      = (Inr (), example_fs(init_path \<mapsto> concat ?pre @ assignment_line ''0.3'' @ concat ?post))"
    using T [THEN conjunct2, THEN mp, OF h] by (elim conjE)
  show ?thesis
    using v 1 u 2 by (simp add: assignment_line_def)
qed

end
